theory Spec2Isabelle
  imports Main "HOL-Library.Word"
begin

unbundle bit_operations_syntax

section \<open>Common types\<close>

type_synonym byte = "8 word"
type_synonym u32 = "32 word"
type_synonym u64 = "64 word"

text \<open>
  The codes of \<open>Status\<close> that the modelled functions produce or pass on.  \<open>Corruption\<close>
  and \<open>InternalError\<close> are created by the code under study; \<open>IOError\<close> and
  \<open>NotFound\<close> stand for what the file system and the other collaborators may return.
\<close>

datatype error = Corruption | InternalError | IOError | NotFound

section \<open>TabletMeta (tablet\_meta.h)\<close>

text \<open>The enum \<open>TabletState\<close>, in the order of its declaration.\<close>

datatype TabletState =
    TABLET_NOTREADY
  | TABLET_RUNNING
  | TABLET_TOMBSTONED
  | TABLET_STOPPED
  | TABLET_SHUTDOWN

text \<open>The integer value of each enumerator (C++ numbers them from 0).\<close>

fun state_rank :: "TabletState \<Rightarrow> nat" where
  "state_rank TABLET_NOTREADY = 0"
| "state_rank TABLET_RUNNING = 1"
| "state_rank TABLET_TOMBSTONED = 2"
| "state_rank TABLET_STOPPED = 3"
| "state_rank TABLET_SHUTDOWN = 4"

datatype RowsetTypePB = ALPHA_ROWSET | BETA_ROWSET

text \<open>
  \<open>RowsetMeta\<close> is used only through the accessors \<open>num_rows()\<close>,
  \<open>data_disk_size()\<close>, \<open>is_local()\<close> and \<open>rowset_type()\<close>; a rowset meta is the
  record of what they return.  The sizes are \<open>size_t\<close>, 64 bits wide.
\<close>

record rowset_meta =
  num_rows :: u64
  data_disk_size :: u64
  is_local :: bool
  rowset_type :: RowsetTypePB

record tablet_meta =
  table_id :: int
  partition_id :: int
  tablet_id :: int
  replica_id :: int
  schema_hash :: int
  shard_id :: int
  creation_time :: int
  cumulative_layer_point :: int
  tablet_state :: TabletState
  rs_metas :: "rowset_meta list"
  stale_rs_metas :: "rowset_meta list"
  in_restore_mode :: bool
  preferred_rowset_type :: RowsetTypePB

text \<open>The default member initialisers of the class.\<close>

definition TabletMeta_default :: tablet_meta where
  "TabletMeta_default =
     \<lparr> table_id = 0, partition_id = 0, tablet_id = 0, replica_id = 0, schema_hash = 0,
       shard_id = 0, creation_time = 0, cumulative_layer_point = 0,
       tablet_state = TABLET_NOTREADY, rs_metas = [], stale_rs_metas = [],
       in_restore_mode = False, preferred_rowset_type = BETA_ROWSET \<rparr>"

text \<open>
  \<open>tablet_footprint\<close>, \<open>tablet_local_size\<close> and \<open>tablet_remote_size\<close>: each is a
  loop over \<open>_rs_metas\<close> that adds to the \<open>size_t\<close> accumulator \<open>total_size\<close>
  (addition on \<open>u64\<close> wraps, as \<open>size_t\<close> does).
\<close>

fun footprint_loop :: "rowset_meta list \<Rightarrow> u64 \<Rightarrow> u64" where
  "footprint_loop [] total_size = total_size"
| "footprint_loop (rs # rest) total_size = footprint_loop rest (total_size + data_disk_size rs)"

fun local_size_loop :: "rowset_meta list \<Rightarrow> u64 \<Rightarrow> u64" where
  "local_size_loop [] total_size = total_size"
| "local_size_loop (rs # rest) total_size =
     local_size_loop rest (if is_local rs then total_size + data_disk_size rs else total_size)"

fun remote_size_loop :: "rowset_meta list \<Rightarrow> u64 \<Rightarrow> u64" where
  "remote_size_loop [] total_size = total_size"
| "remote_size_loop (rs # rest) total_size =
     remote_size_loop rest (if \<not> is_local rs then total_size + data_disk_size rs else total_size)"

definition tablet_footprint :: "tablet_meta \<Rightarrow> u64" where
  "tablet_footprint m = footprint_loop (rs_metas m) 0"

definition tablet_local_size :: "tablet_meta \<Rightarrow> u64" where
  "tablet_local_size m = local_size_loop (rs_metas m) 0"

definition tablet_remote_size :: "tablet_meta \<Rightarrow> u64" where
  "tablet_remote_size m = remote_size_loop (rs_metas m) 0"

text \<open>\<open>set_tablet_state\<close> assigns the field; there is no other statement in its body.\<close>

definition set_tablet_state :: "TabletState \<Rightarrow> tablet_meta \<Rightarrow> tablet_meta" where
  "set_tablet_state state m = m\<lparr>tablet_state := state\<rparr>"

text \<open>
  The states a tablet meta goes through under a sequence of \<open>set_tablet_state\<close> calls:
  the state before the first call, then the state after each call.
\<close>

fun state_trace :: "tablet_meta \<Rightarrow> TabletState list \<Rightarrow> TabletState list" where
  "state_trace m [] = [tablet_state m]"
| "state_trace m (s # ss) = tablet_state m # state_trace (set_tablet_state s m) ss"

text \<open>
  The legal transitions as the specification lists them (section 4.5):
  NOTREADY to RUNNING, RUNNING to TOMBSTONED, RUNNING to STOPPED, TOMBSTONED to STOPPED,
  STOPPED to SHUTDOWN.
\<close>

fun spec_legal_transition :: "TabletState \<Rightarrow> TabletState \<Rightarrow> bool" where
  "spec_legal_transition TABLET_NOTREADY TABLET_RUNNING = True"
| "spec_legal_transition TABLET_RUNNING TABLET_TOMBSTONED = True"
| "spec_legal_transition TABLET_RUNNING TABLET_STOPPED = True"
| "spec_legal_transition TABLET_TOMBSTONED TABLET_STOPPED = True"
| "spec_legal_transition TABLET_STOPPED TABLET_SHUTDOWN = True"
| "spec_legal_transition _ _ = False"

text \<open>Every call of a sequence asks for a legal transition from the state then current.\<close>

fun spec_legal_calls :: "TabletState \<Rightarrow> TabletState list \<Rightarrow> bool" where
  "spec_legal_calls cur [] = True"
| "spec_legal_calls cur (s # ss) = (spec_legal_transition cur s \<and> spec_legal_calls s ss)"

section \<open>DeleteBitmap (tablet\_meta.h)\<close>

text \<open>
  The header declares the class and documents its operations; their bodies are in
  tablet\_meta.cpp.  A bitmap key is the triple of rowset id, segment id and version; the
  member \<open>delete_bitmap\<close> is an ordered map from keys to bitmaps of row ids.  A
  \<open>roaring::Roaring\<close> bitmap is modelled by the set of the 32-bit row ids it holds.
\<close>

type_synonym 'r BitmapKey = "'r \<times> u32 \<times> u32"

type_synonym 'r DeleteBitmap = "'r BitmapKey \<rightharpoonup> u32 set"

text \<open>
  Modelled from the spec: the body of \<open>DeleteBitmap::add\<close> (tablet\_meta.cpp) is missing.
  "\<open>add(key, row_id)\<close>: marks one row deleted at that key; idempotent."
\<close>

definition DeleteBitmap_add :: "'r BitmapKey \<Rightarrow> u32 \<Rightarrow> 'r DeleteBitmap \<Rightarrow> 'r DeleteBitmap" where
  "DeleteBitmap_add bmk row_id dbm =
     dbm(bmk \<mapsto> (case dbm bmk of None \<Rightarrow> {row_id} | Some bm \<Rightarrow> insert row_id bm))"

text \<open>
  Modelled from the spec: the body of \<open>DeleteBitmap::remove(bmk, row_id)\<close>
  (tablet\_meta.cpp) is missing.  "\<open>remove(key, row_id)\<close>: clears one row's deletion mark;
  returns false if the key has no bitmap at all"; the header: "Clears the deletetion mark
  specific row.  Returns non-zero if the associated delete bimap does not exist".  The
  result is the \<open>int\<close> returned and the bitmap after the call; the header fixes the value
  returned for a missing key only as non-zero, here \<open>-1\<close>.
\<close>

definition DeleteBitmap_remove :: "'r BitmapKey \<Rightarrow> u32 \<Rightarrow> 'r DeleteBitmap \<Rightarrow> int \<times> 'r DeleteBitmap" where
  "DeleteBitmap_remove bmk row_id dbm =
     (case dbm bmk of
        None \<Rightarrow> (- 1, dbm)
      | Some bm \<Rightarrow> (0, dbm(bmk \<mapsto> bm - {row_id})))"

text \<open>
  Modelled from the spec: the body of \<open>DeleteBitmap::contains\<close> (tablet\_meta.cpp) is
  missing.  "\<open>contains(key, row_id)\<close>: point lookup"; the header: "Checks if the given row
  is marked deleted".
\<close>

definition DeleteBitmap_contains :: "'r BitmapKey \<Rightarrow> u32 \<Rightarrow> 'r DeleteBitmap \<Rightarrow> bool" where
  "DeleteBitmap_contains bmk row_id dbm =
     (case dbm bmk of None \<Rightarrow> False | Some bm \<Rightarrow> row_id \<in> bm)"

section \<open>Segment (segment.cpp)\<close>

subsection \<open>Collaborators\<close>

text \<open>A \<open>Status\<close> without a value: \<open>Inr ()\<close> is \<open>Status::OK()\<close>.\<close>

type_synonym status = "error + unit"

abbreviation OK :: status where
  "OK \<equiv> Inr ()"

text \<open>
  \<open>io::FileReader\<close> is declared outside the files at hand; the segment uses
  \<open>size()\<close> and \<open>read_at(offset, Slice(buf, len), &bytes_read)\<close>.  A reader is the
  record of the two: its size, and for an offset and a length the status of the read
  together with the contents of the buffer after it.  Offsets and lengths are \<open>size_t\<close>.
\<close>

record file_reader =
  fr_size :: u64
  fr_read_at :: "u64 \<Rightarrow> u64 \<Rightarrow> error + byte list"

text \<open>A read as the segment issues it: offset and length.\<close>

type_synonym read_log = "(u64 \<times> u64) list"

text \<open>
  Modelled from the spec: \<open>decode_fixed32_le\<close> (util/coding.h) is missing.  "4-byte
  little-endian": the first four bytes of the buffer, least significant byte first.
\<close>

definition decode_fixed32_le :: "byte list \<Rightarrow> u32" where
  "decode_fixed32_le buf =
     (ucast (buf ! 0) :: u32) OR push_bit 8 (ucast (buf ! 1)) OR
     push_bit 16 (ucast (buf ! 2)) OR push_bit 24 (ucast (buf ! 3))"

text \<open>
  Modelled from the spec: the writer's side of the same encoding (\<open>encode_fixed32_le\<close>,
  util/coding.h, is missing), used to state the layout of the trailer.
\<close>

definition encode_fixed32_le :: "u32 \<Rightarrow> byte list" where
  "encode_fixed32_le v =
     [ucast v, ucast (drop_bit 8 v), ucast (drop_bit 16 v), ucast (drop_bit 24 v)]"

text \<open>
  Modelled from the spec: \<open>k_segment_magic_length\<close> (segment\_writer.h) is missing.  "4-byte
  magic constant".
\<close>

definition k_segment_magic_length :: nat where
  "k_segment_magic_length = 4"

record page_pointer =
  pp_offset :: u64
  pp_size :: u32

text \<open>
  The protocol-buffer messages \<open>ColumnMetaPB\<close> and \<open>SegmentFooterPB\<close>, with the fields
  the segment reads.
\<close>

record ColumnMetaPB =
  meta_unique_id :: u32
  meta_type :: nat

record SegmentFooterPB =
  footer_columns :: "ColumnMetaPB list"
  footer_num_rows :: u32
  short_key_index_page :: page_pointer

text \<open>A default-constructed \<open>SegmentFooterPB\<close>.\<close>

definition SegmentFooterPB_default :: SegmentFooterPB where
  "SegmentFooterPB_default =
     \<lparr> footer_columns = [], footer_num_rows = 0,
       short_key_index_page = \<lparr> pp_offset = 0, pp_size = 0 \<rparr> \<rparr>"

text \<open>
  \<open>TabletColumn\<close> and \<open>TabletSchema\<close> (olap/tablet\_schema.h), with what the segment asks
  of them: \<open>unique_id()\<close>, \<open>has_default_value()\<close>, \<open>default_value()\<close>,
  \<open>is_nullable()\<close>, \<open>length()\<close> and the type that \<open>get_type_info\<close> looks at;
  \<open>columns()\<close> and \<open>is_in_memory()\<close>.  \<open>num_columns()\<close> is the number of columns.
\<close>

record TabletColumn =
  col_unique_id :: u32
  col_type :: nat
  has_default_value :: bool
  default_value :: string
  is_nullable :: bool
  col_length :: nat

record TabletSchema =
  schema_columns :: "TabletColumn list"
  is_in_memory :: bool

definition num_columns :: "TabletSchema \<Rightarrow> nat" where
  "num_columns sch = length (schema_columns sch)"

text \<open>
  A column iterator is known by how it was made: the default-value iterator by the
  arguments of its constructor (has a default value, the default value, nullable, the type,
  the length), the iterator of a column reader by the column it reads.
\<close>

datatype ColumnIterator =
    DefaultValueColumnIterator bool string bool nat nat
  | FileColumnIterator ColumnMetaPB

text \<open>
  \<open>ColumnReader\<close> (column\_reader.h) is an object the segment only calls: a reader is the
  record of what its methods answer.  The type \<open>'c\<close> is that of a column condition
  (\<open>CondColumn\<close>).
\<close>

record 'c ColumnReader =
  cr_meta :: ColumnMetaPB
  cr_has_zone_map :: bool
  cr_match_condition :: "'c \<Rightarrow> bool"
  cr_has_bitmap_index :: bool
  cr_new_iterator :: "error + ColumnIterator"

text \<open>
  What the segment calls and the files at hand do not define, as parameters: the magic
  bytes \<open>k_segment_magic\<close>; \<open>crc32c::Value\<close>; \<open>SegmentFooterPB::ParseFromString\<close>
  (\<open>None\<close> when it returns false); \<open>FileSystem::open_file\<close>;
  \<open>ColumnReader::create\<close> (options' \<open>kept_in_memory\<close>, the column meta, the number of
  rows, the path); \<open>DefaultValueColumnIterator::init\<close>;
  \<open>PageIO::read_and_decompress_page\<close> (giving the body and the page footer, of type
  \<open>'pf\<close>); \<open>ShortKeyIndexDecoder::parse\<close> (giving the decoded index, of type
  \<open>'idx\<close>).
\<close>

record ('c, 'pf, 'idx) segment_env =
  k_segment_magic :: "byte list"
  crc32c_Value :: "byte list \<Rightarrow> u32"
  ParseFromString :: "byte list \<Rightarrow> SegmentFooterPB option"
  open_file :: "string \<Rightarrow> error + file_reader"
  ColumnReader_create :: "bool \<Rightarrow> ColumnMetaPB \<Rightarrow> u32 \<Rightarrow> string \<Rightarrow> error + 'c ColumnReader"
  DefaultValueColumnIterator_init :: "ColumnIterator \<Rightarrow> status"
  read_and_decompress_page :: "file_reader \<Rightarrow> page_pointer \<Rightarrow> error + byte list \<times> 'pf"
  ShortKeyIndexDecoder_parse :: "byte list \<Rightarrow> 'pf \<Rightarrow> error + 'idx"

subsection \<open>The segment\<close>

text \<open>
  A \<open>ShortKeyIndexDecoder\<close> is fresh after its construction and holds the index after a
  successful \<open>parse\<close>.
\<close>

datatype 'idx ShortKeyIndexDecoder = DecoderFresh | DecoderParsed 'idx

text \<open>
  The members of \<open>Segment\<close>.  \<open>load_index_once\<close> is the \<open>DorisCallOnce\<close> cell:
  \<open>None\<close> before the first call, afterwards the status the one run returned.
  \<open>mem_consumed\<close> is what the segment has reported to its memory tracker.
\<close>

record ('c, 'idx) Segment =
  seg_path :: string
  seg_segment_id :: u32
  seg_tablet_schema :: TabletSchema
  is_open :: bool
  seg_footer :: SegmentFooterPB
  column_id_to_footer_ordinal :: "u32 \<rightharpoonup> nat"
  column_readers :: "'c ColumnReader option list"
  load_index_once :: "status option"
  sk_index_decoder :: "'idx ShortKeyIndexDecoder option"
  mem_consumed :: nat

text \<open>The constructor.\<close>

definition Segment_new :: "string \<Rightarrow> u32 \<Rightarrow> TabletSchema \<Rightarrow> ('c, 'idx) Segment" where
  "Segment_new path segment_id tablet_schema =
     \<lparr> seg_path = path, seg_segment_id = segment_id, seg_tablet_schema = tablet_schema,
       is_open = False, seg_footer = SegmentFooterPB_default,
       column_id_to_footer_ordinal = Map.empty, column_readers = [],
       load_index_once = None, sk_index_decoder = None, mem_consumed = 0 \<rparr>"

text \<open>
  \<open>Segment::_parse_footer\<close>.  The result is the reads issued on the file, in order, the
  status, and the segment after the call.  \<open>file_size\<close> is a \<open>size_t\<close> and
  \<open>footer_length\<close> a \<open>uint32_t\<close>: the sum \<open>12 + footer_length\<close> is computed in 32 bits
  and then widened for the comparison; \<open>file_size - 12 - footer_length\<close> is computed in 64
  bits.  The \<open>DCHECK_EQ\<close>s on \<open>bytes_read\<close> are debug assertions and are left out.
  When \<open>ParseFromString\<close> fails, what it leaves in \<open>_footer\<close> is not known; the model
  keeps the footer the segment had.
\<close>

definition parse_footer ::
  "('c, 'pf, 'idx) segment_env \<Rightarrow> ('c, 'idx) Segment \<Rightarrow> read_log \<times> status \<times> ('c, 'idx) Segment" where
  "parse_footer env seg =
     (case open_file env (seg_path seg) of
        Inl e \<Rightarrow> ([], Inl e, seg)
      | Inr file_reader \<Rightarrow>
          let file_size = fr_size file_reader in
          if file_size < 12 then ([], Inl Corruption, seg)
          else
            (case fr_read_at file_reader (file_size - 12) 12 of
               Inl e \<Rightarrow> ([(file_size - 12, 12)], Inl e, seg)
             | Inr fixed_buf \<Rightarrow>
                 if take k_segment_magic_length (drop 8 fixed_buf)
                      \<noteq> take k_segment_magic_length (k_segment_magic env)
                 then ([(file_size - 12, 12)], Inl Corruption, seg)
                 else
                   let footer_length = decode_fixed32_le fixed_buf in
                   if file_size < ucast (12 + footer_length)
                   then ([(file_size - 12, 12)], Inl Corruption, seg)
                   else
                     let seg1 = seg\<lparr>mem_consumed := mem_consumed seg + unat footer_length\<rparr>;
                         reads = [(file_size - 12, 12),
                                  (file_size - 12 - ucast footer_length, ucast footer_length)]
                     in
                     (case fr_read_at file_reader (file_size - 12 - ucast footer_length)
                             (ucast footer_length) of
                        Inl e \<Rightarrow> (reads, Inl e, seg1)
                      | Inr footer_buf \<Rightarrow>
                          let expect_checksum = decode_fixed32_le (drop 4 fixed_buf);
                              actual_checksum = crc32c_Value env footer_buf
                          in
                          if actual_checksum \<noteq> expect_checksum
                          then (reads, Inl Corruption, seg1)
                          else
                            (case ParseFromString env footer_buf of
                               None \<Rightarrow> (reads, Inl Corruption, seg1)
                             | Some footer \<Rightarrow> (reads, OK, seg1\<lparr>seg_footer := footer\<rparr>)))))"

text \<open>
  \<open>Segment::_create_column_readers\<close>, first loop: \<open>emplace\<close> keeps the entry of a unique
  id that is already in the map.
\<close>

fun emplace_footer_ordinals ::
  "ColumnMetaPB list \<Rightarrow> nat \<Rightarrow> (u32 \<rightharpoonup> nat) \<Rightarrow> (u32 \<rightharpoonup> nat)" where
  "emplace_footer_ordinals [] ordinal m = m"
| "emplace_footer_ordinals (column_pb # rest) ordinal m =
     emplace_footer_ordinals rest (Suc ordinal)
       (if m (meta_unique_id column_pb) = None
        then m(meta_unique_id column_pb \<mapsto> ordinal) else m)"

text \<open>
  Second loop, over the columns of the tablet schema from \<open>ordinal\<close> on: a column whose
  unique id is not in the footer is skipped and keeps a null reader; the first failing
  \<open>ColumnReader::create\<close> ends the loop with its error.
\<close>

fun create_readers_loop ::
  "('c, 'pf, 'idx) segment_env \<Rightarrow> ('c, 'idx) Segment \<Rightarrow> TabletColumn list \<Rightarrow> nat \<Rightarrow>
   'c ColumnReader option list \<Rightarrow> status \<times> 'c ColumnReader option list" where
  "create_readers_loop env seg [] ordinal readers = (OK, readers)"
| "create_readers_loop env seg (column # rest) ordinal readers =
     (case column_id_to_footer_ordinal seg (col_unique_id column) of
        None \<Rightarrow> create_readers_loop env seg rest (Suc ordinal) readers
      | Some footer_ordinal \<Rightarrow>
          (case ColumnReader_create env (is_in_memory (seg_tablet_schema seg))
                  (footer_columns (seg_footer seg) ! footer_ordinal)
                  (footer_num_rows (seg_footer seg)) (seg_path seg) of
             Inl e \<Rightarrow> (Inl e, readers)
           | Inr reader \<Rightarrow>
               create_readers_loop env seg rest (Suc ordinal) (readers[ordinal := Some reader])))"

text \<open>\<open>std::vector::resize\<close>: cut, or fill up with null pointers.\<close>

definition resize_readers :: "nat \<Rightarrow> 'c ColumnReader option list \<Rightarrow> 'c ColumnReader option list" where
  "resize_readers n readers = take n readers @ replicate (n - length readers) None"

definition create_column_readers ::
  "('c, 'pf, 'idx) segment_env \<Rightarrow> ('c, 'idx) Segment \<Rightarrow> status \<times> ('c, 'idx) Segment" where
  "create_column_readers env seg =
     (let seg1 = seg\<lparr>column_id_to_footer_ordinal :=
                  emplace_footer_ordinals (footer_columns (seg_footer seg)) 0
                    (column_id_to_footer_ordinal seg)\<rparr>;
          readers0 = resize_readers (length (schema_columns (seg_tablet_schema seg1)))
                       (column_readers seg1);
          (st, readers) = create_readers_loop env seg1
                       (schema_columns (seg_tablet_schema seg1)) 0 readers0
      in (st, seg1\<lparr>column_readers := readers\<rparr>))"

text \<open>\<open>Segment::_open\<close>.\<close>

definition open_internal ::
  "('c, 'pf, 'idx) segment_env \<Rightarrow> ('c, 'idx) Segment \<Rightarrow> read_log \<times> status \<times> ('c, 'idx) Segment" where
  "open_internal env seg =
     (case parse_footer env seg of
        (reads, Inl e, seg1) \<Rightarrow> (reads, Inl e, seg1)
      | (reads, Inr _, seg1) \<Rightarrow>
          (case create_column_readers env seg1 of
             (Inl e, seg2) \<Rightarrow> (reads, Inl e, seg2)
           | (Inr _, seg2) \<Rightarrow> (reads, OK, seg2\<lparr>is_open := True\<rparr>)))"

text \<open>
  \<open>Segment::open\<close>: the reads issued on the file, and the error or the opened segment
  handed out through \<open>output\<close>.
\<close>

definition Segment_open ::
  "('c, 'pf, 'idx) segment_env \<Rightarrow> string \<Rightarrow> u32 \<Rightarrow> TabletSchema \<Rightarrow>
   read_log \<times> (error + ('c, 'idx) Segment)" where
  "Segment_open env path segment_id tablet_schema =
     (case open_internal env (Segment_new path segment_id tablet_schema) of
        (reads, Inl e, segment) \<Rightarrow> (reads, Inl e)
      | (reads, Inr _, segment) \<Rightarrow> (reads, Inr segment))"


text \<open>
  The function run once by \<open>Segment::_load_index\<close>: it opens the file, reads the short
  key index page, reports the size of its body to the memory tracker, makes a new decoder
  and parses the body with it.
\<close>

definition load_index_body ::
  "('c, 'pf, 'idx) segment_env \<Rightarrow> ('c, 'idx) Segment \<Rightarrow> status \<times> ('c, 'idx) Segment" where
  "load_index_body env seg =
     (case open_file env (seg_path seg) of
        Inl e \<Rightarrow> (Inl e, seg)
      | Inr file_reader \<Rightarrow>
          (case read_and_decompress_page env file_reader
                  (short_key_index_page (seg_footer seg)) of
             Inl e \<Rightarrow> (Inl e, seg)
           | Inr (body, footer) \<Rightarrow>
               let seg1 = seg\<lparr>mem_consumed := mem_consumed seg + length body\<rparr> in
               (case ShortKeyIndexDecoder_parse env body footer of
                  Inl e \<Rightarrow> (Inl e, seg1\<lparr>sk_index_decoder := Some DecoderFresh\<rparr>)
                | Inr idx \<Rightarrow> (OK, seg1\<lparr>sk_index_decoder := Some (DecoderParsed idx)\<rparr>))))"

text \<open>
  \<open>Segment::_load_index\<close>.  Modelled from the spec: \<open>DorisCallOnce::call\<close> (util/once.h)
  is missing.  "an explicit initialize-once primitive (a guarded cell that runs its
  initializer exactly once ...)": the first call runs the function and keeps its status,
  a later call returns the status kept.  Callers come one after the other here.
\<close>

definition load_index ::
  "('c, 'pf, 'idx) segment_env \<Rightarrow> ('c, 'idx) Segment \<Rightarrow> status \<times> ('c, 'idx) Segment" where
  "load_index env seg =
     (case load_index_once seg of
        Some st \<Rightarrow> (st, seg)
      | None \<Rightarrow>
          (case load_index_body env seg of
             (st, seg1) \<Rightarrow> (st, seg1\<lparr>load_index_once := Some st\<rparr>)))"

text \<open>
  \<open>OlapReaderStatistics\<close> (the two counters of \<open>int64_t\<close> that \<open>new_iterator\<close> touches)
  and \<open>StorageReadOptions\<close>: \<open>conditions\<close> is a pointer, \<open>None\<close> when null, and
  \<open>conditions->columns()\<close> an ordered map from column ids (\<open>int32_t\<close>) to column
  conditions, given as the list of its entries in the order of iteration.  \<open>stats\<close> is
  a pointer too: the read options hold the address of the statistics, and the statistics
  themselves live in a store from addresses to statistics, shared by the caller, the read
  options and every iterator initialised with them.  An address the store does not hold
  is a null or dangling pointer.
\<close>

record OlapReaderStatistics =
  total_segment_number :: u64
  filtered_segment_number :: u64

type_synonym stats_ptr = nat

type_synonym stats_store = "stats_ptr \<rightharpoonup> OlapReaderStatistics"

record 'c StorageReadOptions =
  conditions :: "(int \<times> 'c) list option"
  stats :: stats_ptr

text \<open>
  The iterators \<open>new_iterator\<close> hands out: the empty one made from the schema, and the
  segment iterator made from the segment (known by its id) and the schema, then
  initialised with the read options.
\<close>

datatype ('s, 'c) RowwiseIterator =
    EmptySegmentIterator 's
  | SegmentIterator u32 's "'c StorageReadOptions"

text \<open>
  The loop of \<open>new_iterator\<close> over the column conditions.  \<open>Some True\<close>: a column with a
  reader and a zone map did not match its condition (the loop returns);  \<open>Some False\<close>:
  the loop ran to its end;  \<open>None\<close>: \<open>_column_readers\<close> was indexed out of range.
\<close>

fun zone_map_prunes ::
  "'c ColumnReader option list \<Rightarrow> (int \<times> 'c) list \<Rightarrow> bool option" where
  "zone_map_prunes readers [] = Some False"
| "zone_map_prunes readers ((column_id, cond) # rest) =
     (if column_id < 0 \<or> length readers \<le> nat column_id then None
      else
        (case readers ! nat column_id of
           None \<Rightarrow> zone_map_prunes readers rest
         | Some reader \<Rightarrow>
             if \<not> cr_has_zone_map reader then zone_map_prunes readers rest
             else if \<not> cr_match_condition reader cond then Some True
             else zone_map_prunes readers rest))"

text \<open>
  \<open>Segment::new_iterator\<close>.  The result, unless the behaviour is undefined (column
  readers indexed out of range, statistics pointer not in the store), is the status, the
  iterator stored through \<open>iter\<close> if any, the store of statistics and the segment after
  the call.  The increments go through the pointer \<open>read_options.stats\<close>, so the iterator,
  which keeps the read options, sees the statistics of the returned store.  The status
  that \<open>init\<close> returns is dropped by the code.
\<close>

definition new_iterator ::
  "('c, 'pf, 'idx) segment_env \<Rightarrow> ('c, 'idx) Segment \<Rightarrow> 's \<Rightarrow> 'c StorageReadOptions \<Rightarrow>
   stats_store \<Rightarrow>
   (status \<times> ('s, 'c) RowwiseIterator option \<times> stats_store \<times> ('c, 'idx) Segment) option" where
  "new_iterator env seg schema read_options store =
     (case (if \<not> is_open seg then open_internal env seg else ([], OK, seg)) of
        (reads, Inl e, seg1) \<Rightarrow> Some (Inl e, None, store, seg1)
      | (reads, Inr _, seg1) \<Rightarrow>
          (case store (stats read_options) of
             None \<Rightarrow> None
           | Some st \<Rightarrow>
               let st1 = st\<lparr>total_segment_number := total_segment_number st + 1\<rparr>;
                   store1 = store(stats read_options \<mapsto> st1)
               in
               (case (case conditions read_options of
                        None \<Rightarrow> Some False
                      | Some conds \<Rightarrow> zone_map_prunes (column_readers seg1) conds) of
                  None \<Rightarrow> None
                | Some True \<Rightarrow>
                    Some (OK, Some (EmptySegmentIterator schema),
                          store1(stats read_options \<mapsto>
                            st1\<lparr>filtered_segment_number := filtered_segment_number st1 + 1\<rparr>),
                          seg1)
                | Some False \<Rightarrow>
                    (case load_index env seg1 of
                       (Inl e, seg2) \<Rightarrow> Some (Inl e, None, store1, seg2)
                     | (Inr _, seg2) \<Rightarrow>
                         Some (OK,
                               Some (SegmentIterator (seg_segment_id seg2) schema read_options),
                               store1, seg2)))))"

subsection \<open>Segment files as byte strings\<close>

text \<open>
  A file reader serves the byte string \<open>bs\<close> when its size is the length of \<open>bs\<close> and
  every read that lies within the file succeeds and fills the buffer with the bytes at
  that place.  Nothing is said about reads that reach beyond the end.
\<close>

definition serves :: "file_reader \<Rightarrow> byte list \<Rightarrow> bool" where
  "serves fr bs \<longleftrightarrow>
     length bs < 2 ^ 64 \<and> fr_size fr = of_nat (length bs) \<and>
     (\<forall>off n. unat off + unat n \<le> length bs \<longrightarrow>
        fr_read_at fr off n = Inr (take (unat n) (drop (unat off) bs)))"

text \<open>
  The parts of a segment file in the words of the specification: the trailer is the last
  12 bytes, made of the footer length, the checksum and the magic; the footer bytes are
  the bytes, as many as the footer length says, that come immediately before the trailer
  (all the bytes before the trailer when there are fewer).
\<close>

definition trailer_of :: "byte list \<Rightarrow> byte list" where
  "trailer_of bs = drop (length bs - 12) bs"

definition trailer_footer_length :: "byte list \<Rightarrow> nat" where
  "trailer_footer_length bs = unat (decode_fixed32_le (trailer_of bs))"

definition trailer_checksum :: "byte list \<Rightarrow> u32" where
  "trailer_checksum bs = decode_fixed32_le (drop 4 (trailer_of bs))"

definition trailer_magic :: "byte list \<Rightarrow> byte list" where
  "trailer_magic bs = drop 8 (trailer_of bs)"

definition footer_bytes_of :: "byte list \<Rightarrow> byte list" where
  "footer_bytes_of bs =
     drop (length bs - 12 - trailer_footer_length bs) (take (length bs - 12) bs)"

text \<open>
  The four cases in which the specification says \<open>open\<close> fails with \<open>Corruption\<close>: the
  file is smaller than the trailer, the magic does not match, the stored checksum is not
  that of the footer bytes, the footer bytes do not parse.
\<close>

definition spec_corruption_cases :: "('c, 'pf, 'idx) segment_env \<Rightarrow> byte list \<Rightarrow> bool" where
  "spec_corruption_cases env bs \<longleftrightarrow>
     length bs < 12
     \<or> trailer_magic bs \<noteq> k_segment_magic env
     \<or> crc32c_Value env (footer_bytes_of bs) \<noteq> trailer_checksum bs
     \<or> ParseFromString env (footer_bytes_of bs) = None"

text \<open>Building a column reader never fails.\<close>

definition creates_ok :: "('c, 'pf, 'idx) segment_env \<Rightarrow> bool" where
  "creates_ok env \<longleftrightarrow>
     (\<forall>kept column_pb rows path. \<exists>reader.
        ColumnReader_create env kept column_pb rows path = Inr reader)"

text \<open>
  The condition of the specification under which \<open>new_iterator\<close> prunes the segment: the
  read options carry conditions, and some column that has a reader with a zone map does
  not match its condition.
\<close>

definition column_mismatch :: "'c ColumnReader option list \<Rightarrow> int \<times> 'c \<Rightarrow> bool" where
  "column_mismatch readers cc =
     (case readers ! nat (fst cc) of
        None \<Rightarrow> False
      | Some reader \<Rightarrow> cr_has_zone_map reader \<and> \<not> cr_match_condition reader (snd cc))"

definition spec_zone_map_mismatch :: "('c, 'idx) Segment \<Rightarrow> 'c StorageReadOptions \<Rightarrow> bool" where
  "spec_zone_map_mismatch seg read_options =
     (case conditions read_options of
        None \<Rightarrow> False
      | Some conds \<Rightarrow> list_ex (column_mismatch (column_readers seg)) conds)"

text \<open>Every column id of the conditions is an index of \<open>_column_readers\<close>.\<close>

definition conditions_in_range :: "('c, 'idx) Segment \<Rightarrow> 'c StorageReadOptions \<Rightarrow> bool" where
  "conditions_in_range seg read_options =
     (case conditions read_options of
        None \<Rightarrow> True
      | Some conds \<Rightarrow>
          list_all (\<lambda>cc. 0 \<le> fst cc \<and> nat (fst cc) < length (column_readers seg)) conds)"


text \<open>
  The segment \<open>new_iterator\<close> works on after its first step: the segment itself when it
  is open already, otherwise the one that a successful \<open>_open\<close> leaves.
\<close>

definition opened_as ::
  "('c, 'pf, 'idx) segment_env \<Rightarrow> ('c, 'idx) Segment \<Rightarrow> ('c, 'idx) Segment \<Rightarrow> bool" where
  "opened_as env seg seg1 \<longleftrightarrow>
     (if is_open seg then seg1 = seg
      else fst (snd (open_internal env seg)) = OK \<and> snd (snd (open_internal env seg)) = seg1)"

subsection \<open>A concrete environment\<close>

text \<open>
  To run the model on concrete files the parameters are given values.  A reader over a
  byte string held in memory refuses the reads that reach beyond the end.
\<close>

definition file_reader_of :: "byte list \<Rightarrow> file_reader" where
  "file_reader_of bs =
     \<lparr> fr_size = of_nat (length bs),
       fr_read_at = (\<lambda>off n. if unat off + unat n \<le> length bs
                              then Inr (take (unat n) (drop (unat off) bs))
                              else Inl IOError) \<rparr>"

text \<open>
  Modelled from the spec: \<open>crc32c::Value\<close> (util/crc32c.cpp) is missing.  "CRC32C": the
  cyclic redundancy check with the Castagnoli polynomial, reflected (\<open>0x82F63B78\<close>),
  initial value and final complement \<open>0xFFFFFFFF\<close>, computed bit by bit.
\<close>

definition crc32c_shift :: "u32 \<Rightarrow> u32" where
  "crc32c_shift c = (if bit c 0 then drop_bit 1 c XOR 0x82F63B78 else drop_bit 1 c)"

definition crc32c_byte :: "u32 \<Rightarrow> byte \<Rightarrow> u32" where
  "crc32c_byte c b =
     crc32c_shift (crc32c_shift (crc32c_shift (crc32c_shift
       (crc32c_shift (crc32c_shift (crc32c_shift (crc32c_shift (c XOR ucast b))))))))"

definition crc32c :: "byte list \<Rightarrow> u32" where
  "crc32c bs = foldl crc32c_byte 0xFFFFFFFF bs XOR 0xFFFFFFFF"

text \<open>
  A stand-in for the protocol-buffer decoder: a payload is a list of column unique ids,
  one byte below 128 each; any other byte makes the payload malformed.  The empty payload
  is the footer without columns.
\<close>

definition simple_ParseFromString :: "byte list \<Rightarrow> SegmentFooterPB option" where
  "simple_ParseFromString buf =
     (if list_all (\<lambda>b. b < 128) buf
      then Some (SegmentFooterPB_default
                   \<lparr>footer_columns := map (\<lambda>b. \<lparr>meta_unique_id = ucast b, meta_type = 0\<rparr>) buf\<rparr>)
      else None)"

text \<open>
  A column reader whose zone map covers the values up to 100: a condition, here the least
  value asked for, matches when it is at most 100.
\<close>

definition simple_reader :: "ColumnMetaPB \<Rightarrow> nat ColumnReader" where
  "simple_reader column_pb =
     \<lparr> cr_meta = column_pb, cr_has_zone_map = True,
       cr_match_condition = (\<lambda>least. least \<le> 100),
       cr_has_bitmap_index = False,
       cr_new_iterator = Inr (FileColumnIterator column_pb) \<rparr>"

text \<open>
  An opened segment whose file holds the columns with unique ids 1 and 2, under a schema
  that has since gained a third column, not nullable, with the default value 0, and a
  fourth without default value or nullability.
\<close>

definition simple_segment :: "(nat, unit) Segment" where
  "simple_segment =
     \<lparr> seg_path = ''segment.dat'', seg_segment_id = 0,
       seg_tablet_schema =
         \<lparr> schema_columns =
             [\<lparr> col_unique_id = 1, col_type = 5, has_default_value = False,
                default_value = [], is_nullable = False, col_length = 4 \<rparr>,
              \<lparr> col_unique_id = 2, col_type = 5, has_default_value = False,
                default_value = [], is_nullable = True, col_length = 4 \<rparr>,
              \<lparr> col_unique_id = 3, col_type = 5, has_default_value = True,
                default_value = ''0'', is_nullable = False, col_length = 4 \<rparr>,
              \<lparr> col_unique_id = 4, col_type = 5, has_default_value = False,
                default_value = [], is_nullable = False, col_length = 4 \<rparr>],
           is_in_memory = False \<rparr>,
       is_open = True,
       seg_footer = SegmentFooterPB_default
         \<lparr>footer_columns := [\<lparr>meta_unique_id = 1, meta_type = 0\<rparr>,
                             \<lparr>meta_unique_id = 2, meta_type = 0\<rparr>]\<rparr>,
       column_id_to_footer_ordinal = [1 \<mapsto> 0, 2 \<mapsto> 1],
       column_readers =
         [Some (simple_reader \<lparr>meta_unique_id = 1, meta_type = 0\<rparr>),
          Some (simple_reader \<lparr>meta_unique_id = 2, meta_type = 0\<rparr>), None, None],
       load_index_once = None, sk_index_decoder = None, mem_consumed = 2 \<rparr>"

text \<open>
  The environment with one file, named \<open>''segment.dat''\<close>, of the given contents; magic
  \<open>''D0R1''\<close>; every other collaborator succeeds.
\<close>

definition simple_env :: "byte list \<Rightarrow> (nat, unit, unit) segment_env" where
  "simple_env file_bytes =
     \<lparr> k_segment_magic = [0x44, 0x30, 0x52, 0x31],
       crc32c_Value = crc32c,
       ParseFromString = simple_ParseFromString,
       open_file = (\<lambda>path. if path = ''segment.dat''
                             then Inr (file_reader_of file_bytes) else Inl NotFound),
       ColumnReader_create = (\<lambda>kept_in_memory column_pb rows path. Inr (simple_reader column_pb)),
       DefaultValueColumnIterator_init = (\<lambda>default_value_iter. OK),
       read_and_decompress_page = (\<lambda>file_reader pointer. Inr ([], ())),
       ShortKeyIndexDecoder_parse = (\<lambda>body footer. Inr ()) \<rparr>"


definition simple_env_page_unreadable :: "(nat, unit, unit) segment_env" where
  "simple_env_page_unreadable =
     (simple_env [])\<lparr>read_and_decompress_page := (\<lambda>file_reader pointer. Inl IOError)\<rparr>"

section \<open>Properties of TabletMeta\<close>

lemma footprint_loop_sum:
  "footprint_loop rss acc = acc + sum_list (map data_disk_size rss)"
  by (induction rss arbitrary: acc) (simp_all add: add.assoc)

lemma local_size_loop_sum:
  "local_size_loop rss acc = acc + sum_list (map data_disk_size (filter is_local rss))"
  by (induction rss arbitrary: acc) (simp_all add: add.assoc)

lemma remote_size_loop_sum:
  "remote_size_loop rss acc =
     acc + sum_list (map data_disk_size (filter (\<lambda>rs. \<not> is_local rs) rss))"
  by (induction rss arbitrary: acc) (simp_all add: add.assoc)

lemma sum_list_partition_local:
  "sum_list (map data_disk_size rss) =
     sum_list (map data_disk_size (filter is_local rss)) +
     sum_list (map data_disk_size (filter (\<lambda>rs. \<not> is_local rs) rss))"
  by (induction rss) (simp_all add: algebra_simps)

text \<open>
  Claim C10.  The footprint of a tablet meta is its local size plus its remote size (in
  \<open>size_t\<close> arithmetic).  The footprint is the sum of \<open>data_disk_size\<close> over the active
  rowset metas \<open>_rs_metas\<close>, the local size the sum over those that are local, the remote
  size the sum over those that are not; the stale rowset metas do not enter any of them.
\<close>

theorem tablet_footprint_local_plus_remote:
  "tablet_footprint m = tablet_local_size m + tablet_remote_size m
   \<and> tablet_footprint m = sum_list (map data_disk_size (rs_metas m))
   \<and> tablet_local_size m = sum_list (map data_disk_size (filter is_local (rs_metas m)))
   \<and> tablet_remote_size m =
       sum_list (map data_disk_size (filter (\<lambda>rs. \<not> is_local rs) (rs_metas m)))
   \<and> tablet_footprint (m\<lparr>stale_rs_metas := stale\<rparr>) = tablet_footprint m"
proof -
  have total: "tablet_footprint m = sum_list (map data_disk_size (rs_metas m))"
    by (simp add: tablet_footprint_def footprint_loop_sum)
  have loc: "tablet_local_size m = sum_list (map data_disk_size (filter is_local (rs_metas m)))"
    by (simp add: tablet_local_size_def local_size_loop_sum)
  have rem: "tablet_remote_size m =
      sum_list (map data_disk_size (filter (\<lambda>rs. \<not> is_local rs) (rs_metas m)))"
    by (simp add: tablet_remote_size_def remote_size_loop_sum)
  have split: "tablet_footprint m = tablet_local_size m + tablet_remote_size m"
    unfolding total loc rem by (rule sum_list_partition_local)
  have stale: "tablet_footprint (m\<lparr>stale_rs_metas := stale\<rparr>) = tablet_footprint m"
    by (simp add: tablet_footprint_def)
  from split total loc rem stale show ?thesis by blast
qed

lemma state_trace_eq: "state_trace m ss = tablet_state m # ss"
  by (induction ss arbitrary: m) (simp_all add: set_tablet_state_def)

lemma spec_legal_transition_rank:
  "spec_legal_transition a b \<Longrightarrow> state_rank a < state_rank b"
  by (cases a; cases b) simp_all

lemma spec_legal_calls_above:
  "spec_legal_calls cur ss \<Longrightarrow> s \<in> set ss \<Longrightarrow> state_rank cur < state_rank s"
proof (induction ss arbitrary: cur)
  case Nil
  then show ?case by simp
next
  case (Cons a ss)
  from Cons.prems have step: "state_rank cur < state_rank a" and rest: "spec_legal_calls a ss"
    by (simp_all add: spec_legal_transition_rank)
  show ?case
  proof (cases "s = a")
    case True
    with step show ?thesis by simp
  next
    case False
    with Cons.prems have "s \<in> set ss" by simp
    from Cons.IH [OF rest this] step show ?thesis by simp
  qed
qed

lemma spec_legal_calls_sorted:
  "spec_legal_calls cur ss \<Longrightarrow>
     sorted_wrt (\<lambda>a b. state_rank a < state_rank b) (cur # ss)"
proof (induction ss arbitrary: cur)
  case Nil
  then show ?case by simp
next
  case (Cons a ss)
  from Cons.prems have rest: "spec_legal_calls a ss" by simp
  have tail: "sorted_wrt (\<lambda>a b. state_rank a < state_rank b) (a # ss)"
    by (rule Cons.IH [OF rest])
  have head: "\<forall>s \<in> set (a # ss). state_rank cur < state_rank s"
    using spec_legal_calls_above [OF Cons.prems] by blast
  from head tail show ?case by simp
qed

text \<open>
  Claim C4, as the specification states it, fails: \<open>set_tablet_state\<close> accepts any state.
  A tablet meta in SHUTDOWN is put back to RUNNING by one call; the transition is not among
  the legal ones and it lowers the state.
\<close>

theorem set_tablet_state_backward_counterexample:
  "tablet_state (set_tablet_state TABLET_RUNNING
       (set_tablet_state TABLET_SHUTDOWN TabletMeta_default)) = TABLET_RUNNING
   \<and> tablet_state (set_tablet_state TABLET_SHUTDOWN TabletMeta_default) = TABLET_SHUTDOWN
   \<and> \<not> spec_legal_transition TABLET_SHUTDOWN TABLET_RUNNING
   \<and> state_rank TABLET_RUNNING < state_rank TABLET_SHUTDOWN"
  by (simp add: set_tablet_state_def TabletMeta_default_def)

text \<open>
  Claim C4, amended.  \<open>set_tablet_state\<close> stores the requested state whatever the current
  one is, so under a sequence of calls the tablet meta goes through exactly the requested
  states.  When every call requests a legal transition from the state then current (which
  is left to the callers), the state only moves forward: the states gone through are
  strictly increasing in the order NOTREADY, RUNNING, TOMBSTONED, STOPPED, SHUTDOWN.
\<close>

theorem set_tablet_state_forward_when_legal:
  assumes "spec_legal_calls (tablet_state m) ss"
  shows "state_trace m ss = tablet_state m # ss
         \<and> sorted_wrt (\<lambda>a b. state_rank a < state_rank b) (state_trace m ss)"
  using assms by (simp add: state_trace_eq spec_legal_calls_sorted del: sorted_wrt.simps)

theorem set_tablet_state_forward_when_legal_witness:
  "spec_legal_calls (tablet_state TabletMeta_default)
       [TABLET_RUNNING, TABLET_TOMBSTONED, TABLET_STOPPED, TABLET_SHUTDOWN]
   \<and> state_trace TabletMeta_default
       [TABLET_RUNNING, TABLET_TOMBSTONED, TABLET_STOPPED, TABLET_SHUTDOWN]
     = [TABLET_NOTREADY, TABLET_RUNNING, TABLET_TOMBSTONED, TABLET_STOPPED, TABLET_SHUTDOWN]
   \<and> sorted_wrt (\<lambda>a b. state_rank a < state_rank b)
       (state_trace TabletMeta_default
          [TABLET_RUNNING, TABLET_TOMBSTONED, TABLET_STOPPED, TABLET_SHUTDOWN])"
proof -
  have legal: "spec_legal_calls (tablet_state TabletMeta_default)
      [TABLET_RUNNING, TABLET_TOMBSTONED, TABLET_STOPPED, TABLET_SHUTDOWN]"
    by (simp add: TabletMeta_default_def)
  from set_tablet_state_forward_when_legal [OF legal] legal show ?thesis
    by (simp add: TabletMeta_default_def)
qed

section \<open>Properties of DeleteBitmap\<close>

text \<open>
  Claim C7.  When the delete bitmap has no entry at key \<open>k\<close>, \<open>remove(k, r)\<close> returns a
  non-zero result ("not found") and leaves the structure as it was.  When there is an entry
  at \<open>k\<close>, it returns 0 ("removed"), row \<open>r\<close> is no longer marked at \<open>k\<close>, every other
  mark is as before, and the keys that have a bitmap are the same.
\<close>

theorem DeleteBitmap_remove_found_or_not:
  "(dbm k = None \<longrightarrow>
      fst (DeleteBitmap_remove k r dbm) \<noteq> 0 \<and> snd (DeleteBitmap_remove k r dbm) = dbm)
   \<and> (dbm k \<noteq> None \<longrightarrow>
      fst (DeleteBitmap_remove k r dbm) = 0
      \<and> \<not> DeleteBitmap_contains k r (snd (DeleteBitmap_remove k r dbm))
      \<and> (\<forall>k' r'. (k', r') \<noteq> (k, r) \<longrightarrow>
            DeleteBitmap_contains k' r' (snd (DeleteBitmap_remove k r dbm)) =
            DeleteBitmap_contains k' r' dbm)
      \<and> dom (snd (DeleteBitmap_remove k r dbm)) = dom dbm)"
proof (cases "dbm k")
  case None
  then show ?thesis by (simp add: DeleteBitmap_remove_def)
next
  case (Some bm)
  have res: "DeleteBitmap_remove k r dbm = (0, dbm(k \<mapsto> bm - {r}))"
    using Some by (simp add: DeleteBitmap_remove_def)
  have gone: "\<not> DeleteBitmap_contains k r (dbm(k \<mapsto> bm - {r}))"
    by (simp add: DeleteBitmap_contains_def)
  have others: "DeleteBitmap_contains k' r' (dbm(k \<mapsto> bm - {r})) = DeleteBitmap_contains k' r' dbm"
    if "(k', r') \<noteq> (k, r)" for k' r'
    using that Some by (auto simp: DeleteBitmap_contains_def)
  have keys: "dom (dbm(k \<mapsto> bm - {r})) = dom dbm"
    using Some by auto
  from Some gone others keys show ?thesis
    unfolding res by simp
qed

theorem DeleteBitmap_remove_found_or_not_witness:
  "fst (DeleteBitmap_remove (1::nat, 0, 2) 7 (DeleteBitmap_add (1, 0, 2) 7 Map.empty)) = 0
   \<and> \<not> DeleteBitmap_contains (1::nat, 0, 2) 7
         (snd (DeleteBitmap_remove (1, 0, 2) 7 (DeleteBitmap_add (1, 0, 2) 7 Map.empty)))
   \<and> fst (DeleteBitmap_remove (5::nat, 0, 2) 7 (DeleteBitmap_add (1, 0, 2) 7 Map.empty)) \<noteq> 0
   \<and> snd (DeleteBitmap_remove (5::nat, 0, 2) 7 (DeleteBitmap_add (1, 0, 2) 7 Map.empty))
       = DeleteBitmap_add (1, 0, 2) 7 Map.empty"
proof -
  have present: "DeleteBitmap_add (1::nat, 0, 2) 7 Map.empty (1, 0, 2) \<noteq> None"
    by (simp add: DeleteBitmap_add_def)
  have absent: "DeleteBitmap_add (1::nat, 0, 2) 7 Map.empty (5, 0, 2) = None"
    by (simp add: DeleteBitmap_add_def)
  from DeleteBitmap_remove_found_or_not
         [of "DeleteBitmap_add (1::nat, 0, 2) 7 Map.empty" "(1, 0, 2)" 7] present
       DeleteBitmap_remove_found_or_not
         [of "DeleteBitmap_add (1::nat, 0, 2) 7 Map.empty" "(5, 0, 2)" 7] absent
  show ?thesis by blast
qed

section \<open>Properties of Segment\<close>

subsection \<open>Reading a served file\<close>

lemma serves_size: "serves fr bs \<Longrightarrow> unat (fr_size fr) = length bs"
  by (simp add: serves_def unat_of_nat)

lemma serves_read:
  "serves fr bs \<Longrightarrow> unat off + unat n \<le> length bs \<Longrightarrow>
     fr_read_at fr off n = Inr (take (unat n) (drop (unat off) bs))"
  by (simp add: serves_def)

lemma serves_small: "serves fr bs \<Longrightarrow> (fr_size fr < 12) = (length bs < 12)"
  by (simp add: word_less_nat_alt serves_size)

lemma serves_trailer_offset:
  assumes "serves fr bs" "12 \<le> length bs"
  shows "unat (fr_size fr - 12) = length bs - 12"
proof -
  have "(12 :: u64) \<le> fr_size fr"
    using assms by (simp add: word_le_nat_alt serves_size)
  then have "unat (fr_size fr - 12) = unat (fr_size fr) - unat (12 :: u64)"
    by (rule unat_sub)
  then show ?thesis using assms by (simp add: serves_size)
qed

lemma serves_trailer_read:
  assumes "serves fr bs" "12 \<le> length bs"
  shows "fr_read_at fr (fr_size fr - 12) 12 = Inr (trailer_of bs)"
proof -
  have off: "unat (fr_size fr - 12) = length bs - 12"
    by (rule serves_trailer_offset [OF assms])
  have "fr_read_at fr (fr_size fr - 12) 12 =
      Inr (take (unat (12 :: u64)) (drop (unat (fr_size fr - 12)) bs))"
    by (rule serves_read [OF assms(1)]) (use assms(2) off in simp)
  then show ?thesis using assms(2) by (simp add: off trailer_of_def)
qed

lemma length_trailer_of: "12 \<le> length bs \<Longrightarrow> length (trailer_of bs) = 12"
  by (simp add: trailer_of_def)

lemma unat_ucast_u32_u64: "unat (ucast (w :: u32) :: u64) = unat w"
proof -
  have "unat w < 2 ^ 32"
    using unsigned_less [of w, where 'a = nat] by simp
  then have "unat w < 2 ^ 64"
    by simp
  then show ?thesis
    by (simp add: unsigned_ucast_eq take_bit_nat_eq_self)
qed

lemma guard_no_wrap:
  assumes "serves fr bs" "unat (L :: u32) + 12 < 2 ^ 32"
  shows "(fr_size fr < ucast (12 + L)) = (length bs < 12 + unat L)"
proof -
  have "unat (12 + L) = 12 + unat L"
    using assms(2) by (simp add: unat_word_ariths)
  then show ?thesis
    using assms(1) by (simp add: word_less_nat_alt serves_size unat_ucast_u32_u64)
qed

lemma guard_fits:
  assumes "serves fr bs" "12 + unat (L :: u32) \<le> length bs"
  shows "\<not> fr_size fr < ucast (12 + L)"
proof -
  have "unat (12 + L) \<le> 12 + unat L"
    by (simp add: unat_word_ariths)
  then show ?thesis
    using assms by (simp add: word_less_nat_alt serves_size unat_ucast_u32_u64)
qed

lemma serves_footer_offset:
  assumes "serves fr bs" "12 + unat (L :: u32) \<le> length bs"
  shows "unat (fr_size fr - 12 - ucast L) = length bs - 12 - unat L"
proof -
  have a: "unat (fr_size fr - 12) = length bs - 12"
    using assms by (intro serves_trailer_offset) simp_all
  have "(ucast L :: u64) \<le> fr_size fr - 12"
    using assms a by (simp add: word_le_nat_alt unat_ucast_u32_u64)
  then have "unat (fr_size fr - 12 - ucast L) = unat (fr_size fr - 12) - unat (ucast L :: u64)"
    by (rule unat_sub)
  then show ?thesis by (simp add: a unat_ucast_u32_u64)
qed

lemma serves_footer_read:
  assumes "serves fr bs" "12 + unat (L :: u32) \<le> length bs"
  shows "fr_read_at fr (fr_size fr - 12 - ucast L) (ucast L) =
           Inr (drop (length bs - 12 - unat L) (take (length bs - 12) bs))"
proof -
  have off: "unat (fr_size fr - 12 - ucast L) = length bs - 12 - unat L"
    by (rule serves_footer_offset [OF assms])
  have "fr_read_at fr (fr_size fr - 12 - ucast L) (ucast L) =
      Inr (take (unat (ucast L :: u64)) (drop (unat (fr_size fr - 12 - ucast L)) bs))"
    by (rule serves_read [OF assms(1)]) (use assms(2) off in \<open>simp add: unat_ucast_u32_u64\<close>)
  moreover have "take (unat L) (drop (length bs - 12 - unat L) bs) =
      drop (length bs - 12 - unat L) (take (length bs - 12) bs)"
    using assms(2) by (simp add: drop_take)
  ultimately show ?thesis by (simp add: off unat_ucast_u32_u64)
qed

subsection \<open>The cases of \<open>_parse_footer\<close>\<close>

lemma decode_encode_fixed32_le: "decode_fixed32_le (encode_fixed32_le v @ rest) = v"
  unfolding decode_fixed32_le_def encode_fixed32_le_def
  apply simp
  apply (rule bit_word_eqI)
  apply (auto simp add: bit_simps)
  subgoal for n by (cases "n < 24") simp_all
  done

lemma length_encode_fixed32_le: "length (encode_fixed32_le v) = 4"
  by (simp add: encode_fixed32_le_def)

lemma magic_test:
  assumes "12 \<le> length bs" "length magic = 4"
  shows "(take k_segment_magic_length (drop 8 (trailer_of bs)) \<noteq> take k_segment_magic_length magic)
         = (trailer_magic bs \<noteq> magic)"
  using assms by (simp add: k_segment_magic_length_def trailer_magic_def trailer_of_def)

lemma parse_footer_too_small:
  assumes "open_file env (seg_path seg) = Inr fr" "fr_size fr < 12"
  shows "parse_footer env seg = ([], Inl Corruption, seg)"
  using assms by (simp add: parse_footer_def)

lemma parse_footer_bad_magic:
  assumes "open_file env (seg_path seg) = Inr fr" "serves fr bs" "12 \<le> length bs"
    "length (k_segment_magic env) = 4" "trailer_magic bs \<noteq> k_segment_magic env"
  shows "parse_footer env seg = ([(fr_size fr - 12, 12)], Inl Corruption, seg)"
proof -
  have big: "\<not> fr_size fr < 12"
    using assms(2,3) by (simp add: serves_small)
  have rd: "fr_read_at fr (fr_size fr - 12) 12 = Inr (trailer_of bs)"
    by (rule serves_trailer_read [OF assms(2,3)])
  have mg: "take k_segment_magic_length (drop 8 (trailer_of bs))
      \<noteq> take k_segment_magic_length (k_segment_magic env)"
    using magic_test [OF assms(3,4)] assms(5) by simp
  show ?thesis
    using assms(1) big rd mg by (simp add: parse_footer_def)
qed

lemma parse_footer_length_too_large:
  assumes "open_file env (seg_path seg) = Inr fr" "serves fr bs" "12 \<le> length bs"
    "length (k_segment_magic env) = 4" "trailer_magic bs = k_segment_magic env"
    "trailer_footer_length bs + 12 < 2 ^ 32" "length bs < 12 + trailer_footer_length bs"
  shows "parse_footer env seg = ([(fr_size fr - 12, 12)], Inl Corruption, seg)"
proof -
  have big: "\<not> fr_size fr < 12"
    using assms(2,3) by (simp add: serves_small)
  have rd: "fr_read_at fr (fr_size fr - 12) 12 = Inr (trailer_of bs)"
    by (rule serves_trailer_read [OF assms(2,3)])
  have mg: "take k_segment_magic_length (drop 8 (trailer_of bs))
      = take k_segment_magic_length (k_segment_magic env)"
    using magic_test [OF assms(3,4)] assms(5) by simp
  have guard: "fr_size fr < ucast (12 + decode_fixed32_le (trailer_of bs))"
    using guard_no_wrap [OF assms(2), of "decode_fixed32_le (trailer_of bs)"] assms(6,7)
    by (simp add: trailer_footer_length_def)
  show ?thesis
    using assms(1) big rd mg guard by (simp add: parse_footer_def)
qed

lemma parse_footer_reads_footer:
  assumes "open_file env (seg_path seg) = Inr fr" "serves fr bs"
    "length (k_segment_magic env) = 4" "trailer_magic bs = k_segment_magic env"
    "12 + trailer_footer_length bs \<le> length bs"
  shows "parse_footer env seg =
     ([(fr_size fr - 12, 12),
       (fr_size fr - 12 - of_nat (trailer_footer_length bs), of_nat (trailer_footer_length bs))],
      (if crc32c_Value env (footer_bytes_of bs) \<noteq> trailer_checksum bs then Inl Corruption
       else case ParseFromString env (footer_bytes_of bs) of
              None \<Rightarrow> Inl Corruption | Some footer \<Rightarrow> OK),
      (if crc32c_Value env (footer_bytes_of bs) \<noteq> trailer_checksum bs
       then seg\<lparr>mem_consumed := mem_consumed seg + trailer_footer_length bs\<rparr>
       else case ParseFromString env (footer_bytes_of bs) of
              None \<Rightarrow> seg\<lparr>mem_consumed := mem_consumed seg + trailer_footer_length bs\<rparr>
            | Some footer \<Rightarrow>
                seg\<lparr>mem_consumed := mem_consumed seg + trailer_footer_length bs,
                    seg_footer := footer\<rparr>))"
proof -
  define L where "L = decode_fixed32_le (trailer_of bs)"
  have len: "12 \<le> length bs" using assms(5) by simp
  have uL: "unat L = trailer_footer_length bs"
    by (simp add: L_def trailer_footer_length_def)
  have cast: "(ucast L :: u64) = of_nat (trailer_footer_length bs)"
    unfolding uL [symmetric] by simp
  have big: "\<not> fr_size fr < 12"
    using assms(2) len by (simp add: serves_small)
  have rd: "fr_read_at fr (fr_size fr - 12) 12 = Inr (trailer_of bs)"
    by (rule serves_trailer_read [OF assms(2) len])
  have mg: "take k_segment_magic_length (drop 8 (trailer_of bs))
      = take k_segment_magic_length (k_segment_magic env)"
    using magic_test [OF len assms(3)] assms(4) by simp
  have guard: "\<not> fr_size fr < ucast (12 + L)"
    by (rule guard_fits [OF assms(2)]) (use assms(5) uL in simp)
  have rd2: "fr_read_at fr (fr_size fr - 12 - ucast L) (ucast L) = Inr (footer_bytes_of bs)"
    using serves_footer_read [OF assms(2), of L] assms(5) uL
    by (simp add: footer_bytes_of_def)
  show ?thesis
    using assms(1) big rd mg guard rd2
    by (simp add: parse_footer_def Let_def L_def [symmetric] uL cast [symmetric]
        trailer_checksum_def split: option.split)
qed

subsection \<open>From the footer to the opened segment\<close>

lemma create_readers_loop_ok:
  "creates_ok env \<Longrightarrow> \<exists>rs. create_readers_loop env seg cols ordinal readers = (OK, rs)"
proof (induction cols arbitrary: ordinal readers)
  case Nil
  then show ?case by simp
next
  case (Cons column rest)
  show ?case
  proof (cases "column_id_to_footer_ordinal seg (col_unique_id column)")
    case None
    then show ?thesis using Cons.IH [OF Cons.prems] by simp
  next
    case (Some fo)
    from Cons.prems obtain reader where
      "ColumnReader_create env (is_in_memory (seg_tablet_schema seg))
         (footer_columns (seg_footer seg) ! fo) (footer_num_rows (seg_footer seg)) (seg_path seg)
       = Inr reader"
      unfolding creates_ok_def by blast
    with Some show ?thesis using Cons.IH [OF Cons.prems] by simp
  qed
qed

lemma create_column_readers_ok:
  assumes "creates_ok env"
  shows "\<exists>seg2. create_column_readers env seg = (OK, seg2) \<and> seg_footer seg2 = seg_footer seg"
proof -
  define seg1 where "seg1 = seg\<lparr>column_id_to_footer_ordinal :=
      emplace_footer_ordinals (footer_columns (seg_footer seg)) 0 (column_id_to_footer_ordinal seg)\<rparr>"
  obtain rs where "create_readers_loop env seg1 (schema_columns (seg_tablet_schema seg1)) 0
      (resize_readers (length (schema_columns (seg_tablet_schema seg1))) (column_readers seg1)) = (OK, rs)"
    using create_readers_loop_ok [OF assms] by blast
  then show ?thesis
    by (simp add: create_column_readers_def Let_def seg1_def)
qed

lemma Segment_open_parse_error:
  assumes "parse_footer env (Segment_new path sid sch) = (reads, Inl e, seg1)"
  shows "Segment_open env path sid sch = (reads, Inl e)"
  using assms by (simp add: Segment_open_def open_internal_def)

lemma Segment_open_parse_ok:
  assumes "creates_ok env" "parse_footer env (Segment_new path sid sch) = (reads, OK, seg1)"
  shows "\<exists>seg. Segment_open env path sid sch = (reads, Inr seg) \<and> is_open seg
           \<and> seg_footer seg = seg_footer seg1"
proof -
  obtain seg2 where "create_column_readers env seg1 = (OK, seg2)" "seg_footer seg2 = seg_footer seg1"
    using create_column_readers_ok [OF assms(1)] by blast
  then show ?thesis
    using assms(2) by (simp add: Segment_open_def open_internal_def)
qed

lemma seg_path_Segment_new: "seg_path (Segment_new path sid sch) = path"
  by (simp add: Segment_new_def)

subsection \<open>The concrete environment\<close>

lemma serves_file_reader_of: "length bs < 2 ^ 64 \<Longrightarrow> serves (file_reader_of bs) bs"
  by (simp add: serves_def file_reader_of_def)

lemma creates_ok_simple_env: "creates_ok (simple_env file_bytes)"
  by (simp add: creates_ok_def simple_env_def)

lemma open_file_simple_env:
  "open_file (simple_env file_bytes) ''segment.dat'' = Inr (file_reader_of file_bytes)"
  by (simp add: simple_env_def)

lemma crc32c_Nil: "crc32c [] = 0"
  by (simp add: crc32c_def)

lemma crc32c_1_2: "crc32c [1, 2] = 66625362"
  by (simp add: crc32c_def crc32c_byte_def crc32c_shift_def)

lemma parse_footer_at_most_two_reads: "length (fst (parse_footer env seg)) \<le> 2"
  by (simp add: parse_footer_def Let_def split: sum.split option.split)

subsection \<open>Opening a segment\<close>

text \<open>
  Claim C1, as the specification states it, fails: \<open>open\<close> has a fifth case of
  \<open>Corruption\<close>.  The file of 12 bytes below is a trailer alone: footer length 1, checksum
  0, the magic.  It is not smaller than the trailer, its magic matches, the checksum 0 is
  that of the (empty) bytes before the trailer, and these parse; yet \<open>open\<close> fails with
  \<open>Corruption\<close> after the read of the trailer, because the footer length exceeds what
  comes before the trailer.
\<close>

theorem Segment_open_footer_length_counterexample:
  "\<not> spec_corruption_cases
        (simple_env [1, 0, 0, 0, 0, 0, 0, 0, 0x44, 0x30, 0x52, 0x31])
        [1, 0, 0, 0, 0, 0, 0, 0, 0x44, 0x30, 0x52, 0x31]
   \<and> Segment_open (simple_env [1, 0, 0, 0, 0, 0, 0, 0, 0x44, 0x30, 0x52, 0x31])
        ''segment.dat'' 0 \<lparr>schema_columns = [], is_in_memory = False\<rparr>
      = ([(0, 12)], Inl Corruption)"
proof -
  have cases: "\<not> spec_corruption_cases
        (simple_env [1, 0, 0, 0, 0, 0, 0, 0, 0x44, 0x30, 0x52, 0x31])
        [1, 0, 0, 0, 0, 0, 0, 0, 0x44, 0x30, 0x52, 0x31]"
    by (simp add: spec_corruption_cases_def simple_env_def trailer_magic_def trailer_of_def
        trailer_checksum_def trailer_footer_length_def footer_bytes_of_def
        decode_fixed32_le_def crc32c_Nil simple_ParseFromString_def)
  have run: "Segment_open (simple_env [1, 0, 0, 0, 0, 0, 0, 0, 0x44, 0x30, 0x52, 0x31])
        ''segment.dat'' 0 \<lparr>schema_columns = [], is_in_memory = False\<rparr>
      = ([(0, 12)], Inl Corruption)"
    by (simp add: Segment_open_def open_internal_def parse_footer_def simple_env_def
        file_reader_of_def Segment_new_def k_segment_magic_length_def decode_fixed32_le_def)
  from cases run show ?thesis by simp
qed

text \<open>
  Claim C1, amended.  Let the file open and be read without error, let the declared footer
  length plus 12 fit in 32 bits, and let the building of column readers succeed.  Then
  \<open>Segment::open\<close> fails with \<open>Corruption\<close> in exactly five cases: the four of the
  specification (file smaller than 12 bytes, magic mismatch, checksum mismatch, footer
  payload that does not parse) and the file being smaller than 12 bytes plus the declared
  footer length.  When none of them holds, \<open>open\<close> succeeds, and the segment it hands out
  is open and already holds the parsed footer.
\<close>

theorem Segment_open_corruption_cases:
  assumes opened: "open_file env path = Inr fr"
    and served: "serves fr bs"
    and magic: "length (k_segment_magic env) = 4"
    and fits32: "length bs < 12 \<or> trailer_footer_length bs + 12 < 2 ^ 32"
    and creates: "creates_ok env"
  shows "(snd (Segment_open env path sid sch :: read_log \<times> (error + ('c, 'idx) Segment)) = Inl Corruption
            \<longleftrightarrow> spec_corruption_cases (env :: ('c, 'pf, 'idx) segment_env) bs
                \<or> length bs < 12 + trailer_footer_length bs)
         \<and> (\<not> (spec_corruption_cases env bs \<or> length bs < 12 + trailer_footer_length bs)
            \<longrightarrow> (\<exists>seg. snd (Segment_open env path sid sch) = Inr seg \<and> is_open seg
                   \<and> ParseFromString env (footer_bytes_of bs) = Some (seg_footer seg)))"
proof -
  let ?new = "Segment_new path sid sch :: ('c, 'idx) Segment"
  have op: "open_file env (seg_path ?new) = Inr fr"
    using opened by (simp add: seg_path_Segment_new)
  consider (small) "length bs < 12"
    | (bad_magic) "12 \<le> length bs" "trailer_magic bs \<noteq> k_segment_magic env"
    | (too_long) "12 \<le> length bs" "trailer_magic bs = k_segment_magic env"
        "length bs < 12 + trailer_footer_length bs"
    | (reads) "trailer_magic bs = k_segment_magic env" "12 + trailer_footer_length bs \<le> length bs"
    by linarith
  then show ?thesis
  proof cases
    case small
    then have "fr_size fr < 12" using served by (simp add: serves_small)
    from parse_footer_too_small [OF op this]
    have "Segment_open env path sid sch = ([], (Inl Corruption :: error + ('c, 'idx) Segment))"
      by (rule Segment_open_parse_error)
    with small show ?thesis by (simp add: spec_corruption_cases_def)
  next
    case bad_magic
    from parse_footer_bad_magic [OF op served bad_magic(1) magic bad_magic(2)]
    have "Segment_open env path sid sch =
        ([(fr_size fr - 12, 12)], (Inl Corruption :: error + ('c, 'idx) Segment))"
      by (rule Segment_open_parse_error)
    with bad_magic show ?thesis by (simp add: spec_corruption_cases_def)
  next
    case too_long
    from too_long(1) fits32 have "trailer_footer_length bs + 12 < 2 ^ 32" by simp
    from parse_footer_length_too_large [OF op served too_long(1) magic too_long(2) this too_long(3)]
    have "Segment_open env path sid sch =
        ([(fr_size fr - 12, 12)], (Inl Corruption :: error + ('c, 'idx) Segment))"
      by (rule Segment_open_parse_error)
    with too_long show ?thesis by simp
  next
    case reads
    note pf = parse_footer_reads_footer [OF op served magic reads]
    have len: "\<not> length bs < 12" "\<not> length bs < 12 + trailer_footer_length bs"
      using reads(2) by simp_all
    show ?thesis
    proof (cases "crc32c_Value env (footer_bytes_of bs) \<noteq> trailer_checksum bs")
      case True
      with pf have "\<exists>reads seg1. parse_footer env ?new = (reads, Inl Corruption, seg1)"
        by simp
      then obtain rs where "Segment_open env path sid sch =
          (rs, (Inl Corruption :: error + ('c, 'idx) Segment))"
        using Segment_open_parse_error by blast
      with True show ?thesis by (simp add: spec_corruption_cases_def)
    next
      case crc_ok: False
      show ?thesis
      proof (cases "ParseFromString env (footer_bytes_of bs)")
        case None
        with pf crc_ok have "\<exists>reads seg1. parse_footer env ?new = (reads, Inl Corruption, seg1)"
          by simp
        then obtain rs where "Segment_open env path sid sch =
            (rs, (Inl Corruption :: error + ('c, 'idx) Segment))"
          using Segment_open_parse_error by blast
        with None show ?thesis by (simp add: spec_corruption_cases_def)
      next
        case (Some footer)
        with pf crc_ok have "\<exists>reads seg1. parse_footer env ?new = (reads, OK, seg1)
            \<and> seg_footer seg1 = footer"
          by simp
        then obtain rs seg1 where p: "parse_footer env ?new = (rs, OK, seg1)"
            and f: "seg_footer seg1 = footer"
          by blast
        from Segment_open_parse_ok [OF creates p] obtain seg where
          "Segment_open env path sid sch = (rs, Inr seg)" "is_open seg"
          "seg_footer seg = seg_footer seg1"
          by blast
        with Some crc_ok reads(1) len f show ?thesis
          by (simp add: spec_corruption_cases_def)
      qed
    qed
  qed
qed

theorem Segment_open_corruption_cases_witness:
  "\<not> spec_corruption_cases
        (simple_env [1, 2, 2, 0, 0, 0, 82, 159, 248, 3, 0x44, 0x30, 0x52, 0x31])
        [1, 2, 2, 0, 0, 0, 82, 159, 248, 3, 0x44, 0x30, 0x52, 0x31]
   \<and> \<not> length [1, 2, 2, 0, 0, 0, 82, 159, 248, 3, 0x44, 0x30, 0x52, 0x31 :: byte]
         < 12 + trailer_footer_length [1, 2, 2, 0, 0, 0, 82, 159, 248, 3, 0x44, 0x30, 0x52, 0x31]
   \<and> (\<exists>seg. snd (Segment_open
                  (simple_env [1, 2, 2, 0, 0, 0, 82, 159, 248, 3, 0x44, 0x30, 0x52, 0x31])
                  ''segment.dat'' 0 \<lparr>schema_columns = [], is_in_memory = False\<rparr>) = Inr seg
          \<and> is_open seg
          \<and> simple_ParseFromString [1, 2] = Some (seg_footer seg))"
proof -
  let ?f = "[1, 2, 2, 0, 0, 0, 82, 159, 248, 3, 0x44, 0x30, 0x52, 0x31] :: byte list"
  have len: "trailer_footer_length ?f = 2"
    by (simp add: trailer_footer_length_def trailer_of_def decode_fixed32_le_def)
  have fb: "footer_bytes_of ?f = [1, 2]"
    by (simp add: footer_bytes_of_def len)
  have sum: "trailer_checksum ?f = 66625362"
    by (simp add: trailer_checksum_def trailer_of_def decode_fixed32_le_def)
  have mg: "trailer_magic ?f = k_segment_magic (simple_env ?f)"
    by (simp add: trailer_magic_def trailer_of_def simple_env_def)
  have crc: "crc32c_Value (simple_env ?f) = crc32c"
    by (simp add: simple_env_def)
  have prs: "ParseFromString (simple_env ?f) = simple_ParseFromString"
    by (simp add: simple_env_def)
  have ok: "simple_ParseFromString [1, 2] \<noteq> None"
    by (simp add: simple_ParseFromString_def)
  have none: "\<not> spec_corruption_cases (simple_env ?f) ?f"
    using mg ok by (simp add: spec_corruption_cases_def fb sum crc prs crc32c_1_2)
  have fit: "\<not> length ?f < 12 + trailer_footer_length ?f"
    by (simp add: len)
  have m4: "length (k_segment_magic (simple_env ?f)) = 4"
    by (simp add: simple_env_def)
  have f32: "length ?f < 12 \<or> trailer_footer_length ?f + 12 < 2 ^ 32"
    by (simp add: len)
  have sv: "serves (file_reader_of ?f) ?f"
    by (rule serves_file_reader_of) simp
  from Segment_open_corruption_cases [OF open_file_simple_env sv m4 f32 creates_ok_simple_env,
      of 0 "\<lparr>schema_columns = [], is_in_memory = False\<rparr>"] none fit
  show ?thesis by (simp add: fb prs)
qed

text \<open>
  Claim C6.  When the file is smaller than 12 bytes, \<open>Segment::open\<close> returns
  \<open>Corruption\<close> and has issued no read on the file.
\<close>

theorem Segment_open_truncated_file:
  assumes "open_file env path = Inr fr" "fr_size fr < 12"
  shows "Segment_open env path sid sch = ([], Inl Corruption)"
proof -
  have "open_file env (seg_path (Segment_new path sid sch)) = Inr fr"
    using assms(1) by (simp add: seg_path_Segment_new)
  from parse_footer_too_small [OF this assms(2)] show ?thesis
    by (rule Segment_open_parse_error)
qed

theorem Segment_open_truncated_file_witness:
  "open_file (simple_env [0, 0, 0, 0, 0x44, 0x30, 0x52, 0x31]) ''segment.dat''
     = Inr (file_reader_of [0, 0, 0, 0, 0x44, 0x30, 0x52, 0x31])
   \<and> fr_size (file_reader_of [0, 0, 0, 0, 0x44, 0x30, 0x52, 0x31]) = 8
   \<and> Segment_open (simple_env [0, 0, 0, 0, 0x44, 0x30, 0x52, 0x31]) ''segment.dat'' 0
        \<lparr>schema_columns = [], is_in_memory = False\<rparr>
      = ([], Inl Corruption)"
proof -
  have sz: "fr_size (file_reader_of [0, 0, 0, 0, 0x44, 0x30, 0x52, 0x31]) = 8"
    by (simp add: file_reader_of_def)
  then have small: "fr_size (file_reader_of [0, 0, 0, 0, 0x44, 0x30, 0x52, 0x31]) < 12"
    by simp
  from Segment_open_truncated_file [OF open_file_simple_env small] sz open_file_simple_env
  show ?thesis by blast
qed

text \<open>
  Claim C9 does not hold of the code for declared footer lengths of \<open>2^32 - 12\<close> and
  more: \<open>12 + footer_length\<close> is computed in 32 bits and wraps, the guard
  \<open>file_size < 12 + footer_length\<close> is passed, and the footer is read at the offset
  \<open>file_size - 12 - footer_length\<close>, which has wrapped below zero.  On the 12-byte file
  with footer length \<open>0xFFFFFFFF\<close> the code issues a read of \<open>0xFFFFFFFF\<close> bytes at
  offset \<open>0xFFFFFFFF00000001\<close> and returns what that read returns, not \<open>Corruption\<close>.
\<close>

theorem Segment_open_footer_length_wraps:
  "Segment_open (simple_env [0xFF, 0xFF, 0xFF, 0xFF, 0, 0, 0, 0, 0x44, 0x30, 0x52, 0x31])
     ''segment.dat'' 0 \<lparr>schema_columns = [], is_in_memory = False\<rparr>
   = ([(0, 12), (0xFFFFFFFF00000001, 0xFFFFFFFF)], Inl IOError)"
  by (simp add: Segment_open_def open_internal_def parse_footer_def simple_env_def
      file_reader_of_def Segment_new_def k_segment_magic_length_def decode_fixed32_le_def Let_def)

subsection \<open>The layout of the trailer\<close>

lemma unat_of_nat_u32: "n < 2 ^ 32 \<Longrightarrow> unat (of_nat n :: u32) = n"
  by (simp add: unat_of_nat)

lemma layout_parts:
  assumes layout: "bs = body @ payload @ encode_fixed32_le (of_nat (length payload))
                    @ encode_fixed32_le checksum @ magic"
    and magic: "length magic = 4"
    and short: "length payload < 2 ^ 32"
  shows "length bs = length body + length payload + 12"
    and "trailer_of bs = encode_fixed32_le (of_nat (length payload)) @ encode_fixed32_le checksum @ magic"
    and "trailer_footer_length bs = length payload"
    and "trailer_checksum bs = checksum"
    and "trailer_magic bs = magic"
    and "footer_bytes_of bs = payload"
proof -
  show len: "length bs = length body + length payload + 12"
    by (simp add: layout magic length_encode_fixed32_le)
  show tr: "trailer_of bs =
      encode_fixed32_le (of_nat (length payload)) @ encode_fixed32_le checksum @ magic"
    unfolding trailer_of_def len by (simp add: layout)
  show fl: "trailer_footer_length bs = length payload"
    unfolding trailer_footer_length_def tr
    by (simp add: decode_encode_fixed32_le unat_of_nat_u32 [OF short])
  show "trailer_checksum bs = checksum"
    unfolding trailer_checksum_def tr
    by (simp add: length_encode_fixed32_le decode_encode_fixed32_le)
  show "trailer_magic bs = magic"
    unfolding trailer_magic_def tr
    by (simp add: length_encode_fixed32_le)
  show "footer_bytes_of bs = payload"
    unfolding footer_bytes_of_def fl len by (simp add: layout)
qed

lemma encode_fixed32_le_2: "encode_fixed32_le 2 = [2, 0, 0, 0]"
  by (simp add: encode_fixed32_le_def)

lemma encode_fixed32_le_crc: "encode_fixed32_le 66625362 = [82, 159, 248, 3]"
  by (simp add: encode_fixed32_le_def)

lemma example_payload_length: "(of_nat (length [1, 2 :: byte]) :: u32) = 2"
  by simp

lemma example_file_layout: "[1, 2, 2, 0, 0, 0, 82, 159, 248, 3, 0x44, 0x30, 0x52, 0x31] = [] @ [1, 2] @ encode_fixed32_le (of_nat (length [1, 2 :: byte]))
      @ encode_fixed32_le 66625362 @ [0x44, 0x30, 0x52, 0x31]"
  unfolding example_payload_length encode_fixed32_le_2 encode_fixed32_le_crc by simp

text \<open>
  Claim C2.  Let a file consist of any bytes, then a footer payload, then the 12 bytes of
  the trailer: the length of the payload in 4 bytes little-endian, a checksum in 4 bytes
  little-endian, the 4 magic bytes.  Then \<open>_parse_footer\<close> issues exactly two reads,
  whatever the size of the file: 12 bytes at \<open>file_size - 12\<close>, then as many bytes as the
  payload has at \<open>file_size - 12 - footer_length\<close>.  What it reads is the payload: it
  fails with \<open>Corruption\<close> when the checksum is not the CRC32C of the payload or the
  payload does not parse, and otherwise succeeds with the footer parsed from the payload.
\<close>

theorem parse_footer_trailer_layout:
  assumes opened: "open_file env (seg_path seg) = Inr fr"
    and layout: "bs = body @ payload @ encode_fixed32_le (of_nat (length payload))
                    @ encode_fixed32_le checksum @ k_segment_magic env"
    and served: "serves fr bs"
    and magic: "length (k_segment_magic env) = 4"
    and short: "length payload < 2 ^ 32"
  shows "fst (parse_footer env seg) =
           [(of_nat (length bs - 12), 12),
            (of_nat (length bs - 12 - length payload), of_nat (length payload))]
         \<and> fst (snd (parse_footer env seg)) =
             (if crc32c_Value env payload \<noteq> checksum then Inl Corruption
              else case ParseFromString env payload of
                     None \<Rightarrow> Inl Corruption | Some footer \<Rightarrow> OK)
         \<and> (fst (snd (parse_footer env seg)) = OK \<longrightarrow>
              ParseFromString env payload = Some (seg_footer (snd (snd (parse_footer env seg)))))"
proof -
  note parts = layout_parts [OF layout magic short]
  have fits: "12 + trailer_footer_length bs \<le> length bs"
    by (simp add: parts)
  have size: "fr_size fr = of_nat (length bs)"
    using served by (simp add: serves_def)
  have off1: "fr_size fr - 12 = of_nat (length bs - 12)"
    by (simp add: size parts(1))
  have off2: "(of_nat (length bs - 12) :: u64) - of_nat (length payload) =
      of_nat (length bs - 12 - length payload)"
    by (simp add: parts(1))
  note pf = parse_footer_reads_footer [OF opened served magic parts(5) fits]
  have reads: "fst (parse_footer env seg) =
      [(of_nat (length bs - 12), 12),
       (of_nat (length bs - 12 - length payload), of_nat (length payload))]"
    unfolding pf parts(3) fst_conv off1 off2 by (rule refl)
  have st: "fst (snd (parse_footer env seg)) =
      (if crc32c_Value env payload \<noteq> checksum then Inl Corruption
       else case ParseFromString env payload of
              None \<Rightarrow> Inl Corruption | Some footer \<Rightarrow> OK)"
    unfolding pf parts(4,6) by simp
  have ft: "ParseFromString env payload = Some (seg_footer (snd (snd (parse_footer env seg))))"
    if "fst (snd (parse_footer env seg)) = OK"
    using that unfolding pf parts(4,6) by (simp split: if_splits option.splits)
  from reads st ft show ?thesis by blast
qed

theorem parse_footer_trailer_layout_witness:
  "fst (parse_footer (simple_env [1, 2, 2, 0, 0, 0, 82, 159, 248, 3, 0x44, 0x30, 0x52, 0x31])
          (Segment_new ''segment.dat'' 0 \<lparr>schema_columns = [], is_in_memory = False\<rparr>))
     = [(2, 12), (0, 2)]
   \<and> fst (snd (parse_footer
          (simple_env [1, 2, 2, 0, 0, 0, 82, 159, 248, 3, 0x44, 0x30, 0x52, 0x31])
          (Segment_new ''segment.dat'' 0 \<lparr>schema_columns = [], is_in_memory = False\<rparr>)))
     = OK"
proof -
  let ?f = "[1, 2, 2, 0, 0, 0, 82, 159, 248, 3, 0x44, 0x30, 0x52, 0x31] :: byte list"
  let ?seg = "Segment_new ''segment.dat'' 0 \<lparr>schema_columns = [], is_in_memory = False\<rparr>
      :: (nat, unit) Segment"
  have op: "open_file (simple_env ?f) (seg_path ?seg) = Inr (file_reader_of ?f)"
    by (simp add: seg_path_Segment_new open_file_simple_env)
  have mg: "k_segment_magic (simple_env ?f) = [0x44, 0x30, 0x52, 0x31]"
    by (simp add: simple_env_def)
  have layout: "?f = [] @ [1, 2] @ encode_fixed32_le (of_nat (length [1, 2 :: byte]))
      @ encode_fixed32_le 66625362 @ k_segment_magic (simple_env ?f)"
    unfolding mg by (rule example_file_layout)
  have sv: "serves (file_reader_of ?f) ?f"
    by (rule serves_file_reader_of) simp
  have m4: "length (k_segment_magic (simple_env ?f)) = 4"
    by (simp add: mg)
  have short: "length [1, 2 :: byte] < 2 ^ 32"
    by simp
  have crc: "crc32c_Value (simple_env ?f) [1, 2] = 66625362"
    by (simp add: simple_env_def crc32c_1_2)
  have prs: "ParseFromString (simple_env ?f) [1, 2] =
      Some (SegmentFooterPB_default\<lparr>footer_columns :=
        [\<lparr>meta_unique_id = 1, meta_type = 0\<rparr>, \<lparr>meta_unique_id = 2, meta_type = 0\<rparr>]\<rparr>)"
    by (simp add: simple_env_def simple_ParseFromString_def)
  note inst = parse_footer_trailer_layout [OF op layout sv m4 short]
  have a: "fst (parse_footer (simple_env ?f) ?seg) = [(2, 12), (0, 2)]"
    using inst by simp
  have b: "fst (snd (parse_footer (simple_env ?f) ?seg)) = OK"
    using inst unfolding crc prs by simp
  from a b show ?thesis by simp
qed

subsection \<open>Column iterators\<close>








subsection \<open>Row iterators\<close>

lemma zone_map_prunes_in_range:
  "list_all (\<lambda>cc. 0 \<le> fst cc \<and> nat (fst cc) < length readers) conds \<Longrightarrow>
     zone_map_prunes readers conds = Some (list_ex (column_mismatch readers) conds)"
proof (induction conds)
  case Nil
  then show ?case by simp
next
  case (Cons cc rest)
  obtain column_id cond where cc: "cc = (column_id, cond)"
    by (cases cc)
  from Cons.prems have here: "0 \<le> column_id" "nat column_id < length readers"
    and there: "list_all (\<lambda>cc. 0 \<le> fst cc \<and> nat (fst cc) < length readers) rest"
    by (simp_all add: cc)
  note IH = Cons.IH [OF there]
  show ?case
  proof (cases "readers ! nat column_id")
    case None
    with here IH show ?thesis by (simp add: cc column_mismatch_def)
  next
    case (Some reader)
    with here IH show ?thesis by (simp add: cc column_mismatch_def)
  qed
qed

lemma zone_map_loop_result:
  assumes range: "conditions_in_range seg read_options"
  shows "(case conditions read_options of
            None \<Rightarrow> Some False
          | Some conds \<Rightarrow> zone_map_prunes (column_readers seg) conds)
         = Some (spec_zone_map_mismatch seg read_options)"
proof (cases "conditions read_options")
  case None
  then show ?thesis by (simp add: spec_zone_map_mismatch_def)
next
  case (Some conds)
  with range have "list_all (\<lambda>cc. 0 \<le> fst cc \<and> nat (fst cc) < length (column_readers seg)) conds"
    by (simp add: conditions_in_range_def)
  from zone_map_prunes_in_range [OF this] Some show ?thesis
    by (simp add: spec_zone_map_mismatch_def)
qed

lemma load_index_already:
  "load_index_once seg = Some st \<Longrightarrow> load_index env seg = (st, seg)"
  by (simp add: load_index_def)

lemma load_index_open_fails:
  assumes "load_index_once seg = None" "open_file env (seg_path seg) = Inl e"
  shows "load_index env seg = (Inl e, seg\<lparr>load_index_once := Some (Inl e)\<rparr>)"
  using assms by (simp add: load_index_def load_index_body_def)

lemma load_index_read_fails:
  assumes "load_index_once seg = None" "open_file env (seg_path seg) = Inr file_reader"
    "read_and_decompress_page env file_reader (short_key_index_page (seg_footer seg)) = Inl e"
  shows "load_index env seg = (Inl e, seg\<lparr>load_index_once := Some (Inl e)\<rparr>)"
  using assms by (simp add: load_index_def load_index_body_def)

lemma load_index_parse_fails:
  assumes "load_index_once seg = None" "open_file env (seg_path seg) = Inr file_reader"
    "read_and_decompress_page env file_reader (short_key_index_page (seg_footer seg))
       = Inr (body, footer)"
    "ShortKeyIndexDecoder_parse env body footer = Inl e"
  shows "load_index env seg =
           (Inl e, seg\<lparr>mem_consumed := mem_consumed seg + length body,
                       sk_index_decoder := Some DecoderFresh,
                       load_index_once := Some (Inl e)\<rparr>)"
  using assms by (simp add: load_index_def load_index_body_def)

lemma load_index_loads:
  assumes "load_index_once seg = None" "open_file env (seg_path seg) = Inr file_reader"
    "read_and_decompress_page env file_reader (short_key_index_page (seg_footer seg))
       = Inr (body, footer)"
    "ShortKeyIndexDecoder_parse env body footer = Inr idx"
  shows "load_index env seg =
           (OK, seg\<lparr>mem_consumed := mem_consumed seg + length body,
                    sk_index_decoder := Some (DecoderParsed idx),
                    load_index_once := Some OK\<rparr>)"
  using assms by (simp add: load_index_def load_index_body_def)

lemma load_index_once_only:
  "load_index env seg = (st, seg2) \<Longrightarrow> load_index env' seg2 = (st, seg2)"
  by (auto simp: load_index_def split: option.splits prod.splits)

lemma opened_as_step:
  assumes "opened_as env seg seg1"
  shows "\<exists>reads. (if \<not> is_open seg then open_internal env seg else ([], OK, seg))
           = (reads, OK, seg1)"
proof (cases "is_open seg")
  case True
  with assms show ?thesis by (simp add: opened_as_def)
next
  case False
  with assms have "fst (snd (open_internal env seg)) = OK"
      "snd (snd (open_internal env seg)) = seg1"
    by (simp_all add: opened_as_def)
  then have "open_internal env seg = (fst (open_internal env seg), OK, seg1)"
    by (metis prod.collapse)
  with False show ?thesis by auto
qed

lemma new_iterator_open_error:
  assumes "\<not> is_open seg" and "open_internal env seg = (reads, Inl e, seg1)"
  shows "new_iterator env seg schema read_options store = Some (Inl e, None, store, seg1)"
  using assms by (simp add: new_iterator_def)

lemma new_iterator_pruned:
  assumes "opened_as env seg seg1" "conditions_in_range seg1 read_options"
    "store (stats read_options) = Some st" "spec_zone_map_mismatch seg1 read_options"
  shows "new_iterator env seg schema read_options store =
           Some (OK, Some (EmptySegmentIterator schema),
                 store(stats read_options \<mapsto>
                   st\<lparr>total_segment_number := total_segment_number st + 1,
                      filtered_segment_number := filtered_segment_number st + 1\<rparr>),
                 seg1)"
proof -
  obtain reads where "(if \<not> is_open seg then open_internal env seg else ([], OK, seg))
      = (reads, OK, seg1)"
    using opened_as_step [OF assms(1)] by blast
  then show ?thesis
    using assms(3,4)
    by (simp add: new_iterator_def zone_map_loop_result [OF assms(2)] Let_def)
qed

lemma new_iterator_not_pruned:
  assumes "opened_as env seg seg1" "conditions_in_range seg1 read_options"
    "store (stats read_options) = Some st" "\<not> spec_zone_map_mismatch seg1 read_options"
    "load_index env seg1 = (status, seg2)"
  shows "new_iterator env seg schema read_options store =
           Some (status,
                 (case status of
                    Inl e \<Rightarrow> None
                  | Inr u \<Rightarrow> Some (SegmentIterator (seg_segment_id seg2) schema read_options)),
                 store(stats read_options \<mapsto>
                   st\<lparr>total_segment_number := total_segment_number st + 1\<rparr>),
                 seg2)"
proof -
  obtain reads where "(if \<not> is_open seg then open_internal env seg else ([], OK, seg))
      = (reads, OK, seg1)"
    using opened_as_step [OF assms(1)] by blast
  then show ?thesis
    using assms(3,4,5)
    by (cases status) (simp_all add: new_iterator_def zone_map_loop_result [OF assms(2)] Let_def)
qed

lemma simple_segment_open: "is_open simple_segment"
  by (simp add: simple_segment_def)

lemma simple_segment_opened_as: "opened_as env simple_segment simple_segment"
  by (simp add: opened_as_def simple_segment_open)

lemma simple_segment_mismatch:
  "spec_zone_map_mismatch simple_segment \<lparr>conditions = Some [(0, least)], stats = p\<rparr>
     = (\<not> least \<le> 100)"
  by (simp add: spec_zone_map_mismatch_def column_mismatch_def simple_segment_def simple_reader_def)

lemma simple_segment_in_range:
  "conditions_in_range simple_segment \<lparr>conditions = Some [(0, least)], stats = p\<rparr>"
  by (simp add: conditions_in_range_def simple_segment_def)

lemma simple_segment_not_loaded: "load_index_once simple_segment = None"
  by (simp add: simple_segment_def)

lemma simple_segment_page:
  "short_key_index_page (seg_footer simple_segment) = \<lparr>pp_offset = 0, pp_size = 0\<rparr>"
  by (simp add: simple_segment_def SegmentFooterPB_default_def)

lemma open_internal_truncated:
  "open_internal (simple_env [0, 0, 0, 0, 0x44, 0x30, 0x52, 0x31])
     (Segment_new ''segment.dat'' 0 \<lparr>schema_columns = [], is_in_memory = False\<rparr>)
   = ([], Inl Corruption,
      Segment_new ''segment.dat'' 0 \<lparr>schema_columns = [], is_in_memory = False\<rparr>)"
proof -
  have "fr_size (file_reader_of [0, 0, 0, 0, 0x44, 0x30, 0x52, 0x31]) < 12"
    by (simp add: file_reader_of_def)
  moreover have "open_file (simple_env [0, 0, 0, 0, 0x44, 0x30, 0x52, 0x31])
      (seg_path (Segment_new ''segment.dat'' 0 \<lparr>schema_columns = [], is_in_memory = False\<rparr>
         :: (nat, unit) Segment))
      = Inr (file_reader_of [0, 0, 0, 0, 0x44, 0x30, 0x52, 0x31])"
    by (simp add: seg_path_Segment_new open_file_simple_env)
  ultimately show ?thesis
    by (simp add: open_internal_def parse_footer_too_small)
qed

text \<open>
  Claim C5, as the specification states it, fails in its second half: when no column
  mismatches, \<open>new_iterator\<close> loads the short key index and passes an error of the load
  on.  The segment below is open and its column 0 matches the condition; the short key
  index page cannot be read, and \<open>new_iterator\<close> returns the \<open>IOError\<close> of the read and
  no iterator.
\<close>

theorem new_iterator_load_fails_counterexample:
  "is_open simple_segment
   \<and> \<not> spec_zone_map_mismatch simple_segment \<lparr>conditions = Some [(0, 50)], stats = 0\<rparr>
   \<and> new_iterator simple_env_page_unreadable simple_segment [0 :: nat, 1]
        \<lparr>conditions = Some [(0, 50)], stats = 0\<rparr>
        [0 \<mapsto> \<lparr>total_segment_number = 0, filtered_segment_number = 0\<rparr>]
      = Some (Inl IOError, None,
              [0 \<mapsto> \<lparr>total_segment_number = 1, filtered_segment_number = 0\<rparr>],
              simple_segment\<lparr>load_index_once := Some (Inl IOError)\<rparr>)"
proof -
  have hit: "\<not> spec_zone_map_mismatch simple_segment \<lparr>conditions = Some [(0, 50)], stats = 0\<rparr>"
    by (simp add: simple_segment_mismatch)
  have load: "load_index simple_env_page_unreadable simple_segment =
      (Inl IOError, simple_segment\<lparr>load_index_once := Some (Inl IOError)\<rparr>)"
    by (simp add: load_index_def load_index_body_def simple_env_page_unreadable_def
        simple_env_def simple_segment_def)
  have loop: "zone_map_prunes (column_readers simple_segment) [(0, 50)] = Some False"
    by (simp add: simple_segment_def simple_reader_def)
  have run: "new_iterator simple_env_page_unreadable simple_segment [0 :: nat, 1]
        \<lparr>conditions = Some [(0, 50)], stats = 0\<rparr>
        [0 \<mapsto> \<lparr>total_segment_number = 0, filtered_segment_number = 0\<rparr>]
      = Some (Inl IOError, None,
              [0 \<mapsto> \<lparr>total_segment_number = 1, filtered_segment_number = 0\<rparr>],
              simple_segment\<lparr>load_index_once := Some (Inl IOError)\<rparr>)"
    by (simp add: new_iterator_def simple_segment_open loop load Let_def del: zone_map_prunes.simps)
  from simple_segment_open hit run show ?thesis by blast
qed

text \<open>
  Claim C5, amended.  A segment that is not open is opened first, and a failure to open
  is returned as it is, the statistics untouched.  Let the segment be open, or opened by
  this step, let the column ids of the conditions be indexes of its column readers and
  let \<open>read_options.stats\<close> point to statistics.  \<open>total_segment_number\<close> is incremented
  through the pointer.  If the read options carry conditions and some column that has a
  reader with a zone map does not match its condition, \<open>new_iterator\<close> returns OK with an
  \<open>EmptySegmentIterator\<close> over the schema and increments \<open>filtered_segment_number\<close>
  through the pointer; the segment is as before and the index is not loaded.  Otherwise
  the short key index is loaded, once: a segment that has run the load before returns the
  status of that run without reading; a first load opens the file, reads the page that
  the footer names as short key index page, reports the size of its body to the memory
  tracker and parses the body into a new decoder, and its status is kept.  When the load
  fails, \<open>new_iterator\<close> returns its error and no iterator.  When it succeeds,
  \<open>new_iterator\<close> returns OK with a \<open>SegmentIterator\<close> over the segment and the schema
  that holds the read options, and through their pointer the incremented statistics.
\<close>

theorem new_iterator_prunes_or_loads:
  assumes counted: "counted_store = store(stats read_options \<mapsto>
                       st\<lparr>total_segment_number := total_segment_number st + 1\<rparr>)"
    and iter: "segment_iter = SegmentIterator (seg_segment_id oseg) schema read_options"
    and page: "pointer = short_key_index_page (seg_footer oseg)"
  shows
    "(\<forall>reads e seg'. \<not> is_open seg \<and> open_internal env seg = (reads, Inl e, seg') \<longrightarrow>
        new_iterator env seg schema read_options store = Some (Inl e, None, store, seg'))
     \<and> (opened_as env seg oseg \<and> conditions_in_range oseg read_options
          \<and> store (stats read_options) = Some st \<longrightarrow>
         (spec_zone_map_mismatch oseg read_options \<longrightarrow>
            new_iterator env seg schema read_options store =
              Some (OK, Some (EmptySegmentIterator schema),
                    store(stats read_options \<mapsto>
                      st\<lparr>total_segment_number := total_segment_number st + 1,
                         filtered_segment_number := filtered_segment_number st + 1\<rparr>),
                    oseg))
         \<and> (\<not> spec_zone_map_mismatch oseg read_options \<longrightarrow>
              (\<forall>e. load_index_once oseg = Some (Inl e) \<longrightarrow>
                 new_iterator env seg schema read_options store =
                   Some (Inl e, None, counted_store, oseg))
              \<and> (load_index_once oseg = Some OK \<longrightarrow>
                 new_iterator env seg schema read_options store =
                   Some (OK, Some segment_iter, counted_store, oseg))
              \<and> (load_index_once oseg = None \<longrightarrow>
                  (\<forall>e. open_file env (seg_path oseg) = Inl e \<longrightarrow>
                     new_iterator env seg schema read_options store =
                       Some (Inl e, None, counted_store, oseg\<lparr>load_index_once := Some (Inl e)\<rparr>))
                  \<and> (\<forall>file_reader. open_file env (seg_path oseg) = Inr file_reader \<longrightarrow>
                       (\<forall>e. read_and_decompress_page env file_reader pointer = Inl e \<longrightarrow>
                          new_iterator env seg schema read_options store =
                            Some (Inl e, None, counted_store,
                                  oseg\<lparr>load_index_once := Some (Inl e)\<rparr>))
                       \<and> (\<forall>body footer.
                            read_and_decompress_page env file_reader pointer
                              = Inr (body, footer) \<longrightarrow>
                            (\<forall>e. ShortKeyIndexDecoder_parse env body footer = Inl e \<longrightarrow>
                               new_iterator env seg schema read_options store =
                                 Some (Inl e, None, counted_store,
                                       oseg\<lparr>mem_consumed := mem_consumed oseg + length body,
                                            sk_index_decoder := Some DecoderFresh,
                                            load_index_once := Some (Inl e)\<rparr>))
                            \<and> (\<forall>idx. ShortKeyIndexDecoder_parse env body footer = Inr idx \<longrightarrow>
                                 new_iterator env seg schema read_options store =
                                   Some (OK, Some segment_iter, counted_store,
                                         oseg\<lparr>mem_consumed := mem_consumed oseg + length body,
                                              sk_index_decoder := Some (DecoderParsed idx),
                                              load_index_once := Some OK\<rparr>)))))))"
proof -
  have failed: "new_iterator env seg schema read_options store = Some (Inl e, None, store, seg')"
    if "\<not> is_open seg" "open_internal env seg = (reads, Inl e, seg')" for reads e seg'
    using that by (rule new_iterator_open_error)
  have rest: ?thesis
    if ready: "opened_as env seg oseg" and range: "conditions_in_range oseg read_options"
      and pointee: "store (stats read_options) = Some st"
  proof -
    have pruned: "new_iterator env seg schema read_options store =
        Some (OK, Some (EmptySegmentIterator schema),
              store(stats read_options \<mapsto>
                st\<lparr>total_segment_number := total_segment_number st + 1,
                   filtered_segment_number := filtered_segment_number st + 1\<rparr>),
              oseg)"
      if "spec_zone_map_mismatch oseg read_options"
      using ready range pointee that by (rule new_iterator_pruned)
    have via: "new_iterator env seg schema read_options store =
        Some (status,
              (case status of
                 Inl e \<Rightarrow> None
               | Inr u \<Rightarrow> Some (SegmentIterator (seg_segment_id seg2) schema read_options)),
              counted_store, seg2)"
      if "\<not> spec_zone_map_mismatch oseg read_options" "load_index env oseg = (status, seg2)"
      for status seg2
      unfolding counted using ready range pointee that by (rule new_iterator_not_pruned)
    have c1: "new_iterator env seg schema read_options store = Some (Inl e, None, counted_store, oseg)"
      if "\<not> spec_zone_map_mismatch oseg read_options" "load_index_once oseg = Some (Inl e)" for e
      using via [OF that(1) load_index_already [OF that(2)]] by simp
    have c2: "new_iterator env seg schema read_options store =
        Some (OK, Some segment_iter, counted_store, oseg)"
      if "\<not> spec_zone_map_mismatch oseg read_options" "load_index_once oseg = Some OK"
      using via [OF that(1) load_index_already [OF that(2)]] by (simp add: iter)
    have c3: "new_iterator env seg schema read_options store =
        Some (Inl e, None, counted_store, oseg\<lparr>load_index_once := Some (Inl e)\<rparr>)"
      if "\<not> spec_zone_map_mismatch oseg read_options" "load_index_once oseg = None"
        "open_file env (seg_path oseg) = Inl e" for e
      using via [OF that(1) load_index_open_fails [OF that(2,3)]] by simp
    have c4: "new_iterator env seg schema read_options store =
        Some (Inl e, None, counted_store, oseg\<lparr>load_index_once := Some (Inl e)\<rparr>)"
      if "\<not> spec_zone_map_mismatch oseg read_options" "load_index_once oseg = None"
        "open_file env (seg_path oseg) = Inr file_reader"
        "read_and_decompress_page env file_reader pointer = Inl e" for file_reader e
      using via [OF that(1) load_index_read_fails [OF that(2,3)]] that(4) by (simp add: page)
    have c5: "new_iterator env seg schema read_options store =
        Some (Inl e, None, counted_store,
              oseg\<lparr>mem_consumed := mem_consumed oseg + length body,
                   sk_index_decoder := Some DecoderFresh,
                   load_index_once := Some (Inl e)\<rparr>)"
      if "\<not> spec_zone_map_mismatch oseg read_options" "load_index_once oseg = None"
        "open_file env (seg_path oseg) = Inr file_reader"
        "read_and_decompress_page env file_reader pointer = Inr (body, footer)"
        "ShortKeyIndexDecoder_parse env body footer = Inl e" for file_reader body footer e
      using via [OF that(1) load_index_parse_fails [OF that(2,3) _ that(5)]] that(4)
      by (simp add: page)
    have c6: "new_iterator env seg schema read_options store =
        Some (OK, Some segment_iter, counted_store,
              oseg\<lparr>mem_consumed := mem_consumed oseg + length body,
                   sk_index_decoder := Some (DecoderParsed idx),
                   load_index_once := Some OK\<rparr>)"
      if "\<not> spec_zone_map_mismatch oseg read_options" "load_index_once oseg = None"
        "open_file env (seg_path oseg) = Inr file_reader"
        "read_and_decompress_page env file_reader pointer = Inr (body, footer)"
        "ShortKeyIndexDecoder_parse env body footer = Inr idx" for file_reader body footer idx
      using via [OF that(1) load_index_loads [OF that(2,3) _ that(5)]] that(4)
      by (simp add: page iter)
    from failed pruned c1 c2 c3 c4 c5 c6 show ?thesis by blast
  qed
  show ?thesis
  proof (cases "opened_as env seg oseg \<and> conditions_in_range oseg read_options
      \<and> store (stats read_options) = Some st")
    case True
    then show ?thesis using rest by blast
  next
    case False
    with failed show ?thesis by blast
  qed
qed

theorem new_iterator_prunes_or_loads_witness:
  "new_iterator (simple_env []) simple_segment [0 :: nat, 1]
      \<lparr>conditions = Some [(0, 200)], stats = 0\<rparr>
      [0 \<mapsto> \<lparr>total_segment_number = 0, filtered_segment_number = 0\<rparr>]
     = Some (OK, Some (EmptySegmentIterator [0, 1]),
             [0 \<mapsto> \<lparr>total_segment_number = 1, filtered_segment_number = 1\<rparr>],
             simple_segment)
   \<and> new_iterator (simple_env []) simple_segment [0 :: nat, 1]
      \<lparr>conditions = Some [(0, 50)], stats = 0\<rparr>
      [0 \<mapsto> \<lparr>total_segment_number = 0, filtered_segment_number = 0\<rparr>]
     = Some (OK,
             Some (SegmentIterator 0 [0, 1] \<lparr>conditions = Some [(0, 50)], stats = 0\<rparr>),
             [0 \<mapsto> \<lparr>total_segment_number = 1, filtered_segment_number = 0\<rparr>],
             simple_segment\<lparr>mem_consumed := 2,
                            sk_index_decoder := Some (DecoderParsed ()),
                            load_index_once := Some OK\<rparr>)
   \<and> new_iterator simple_env_page_unreadable simple_segment [0 :: nat, 1]
      \<lparr>conditions = Some [(0, 50)], stats = 0\<rparr>
      [0 \<mapsto> \<lparr>total_segment_number = 0, filtered_segment_number = 0\<rparr>]
     = Some (Inl IOError, None,
             [0 \<mapsto> \<lparr>total_segment_number = 1, filtered_segment_number = 0\<rparr>],
             simple_segment\<lparr>load_index_once := Some (Inl IOError)\<rparr>)
   \<and> new_iterator (simple_env [0, 0, 0, 0, 0x44, 0x30, 0x52, 0x31])
      (Segment_new ''segment.dat'' 0 \<lparr>schema_columns = [], is_in_memory = False\<rparr>)
      [0 :: nat, 1] \<lparr>conditions = Some [(0, 50)], stats = 0\<rparr>
      [0 \<mapsto> \<lparr>total_segment_number = 0, filtered_segment_number = 0\<rparr>]
     = Some (Inl Corruption, None,
             [0 \<mapsto> \<lparr>total_segment_number = 0, filtered_segment_number = 0\<rparr>],
             Segment_new ''segment.dat'' 0 \<lparr>schema_columns = [], is_in_memory = False\<rparr>)"
proof -
  let ?st = "\<lparr>total_segment_number = 0, filtered_segment_number = 0\<rparr>"
  let ?store = "[0 \<mapsto> ?st] :: stats_store"
  let ?sch = "[0, 1] :: nat list"
  let ?hit = "\<lparr>conditions = Some [(0, 50 :: nat)], stats = 0\<rparr>"
  let ?miss = "\<lparr>conditions = Some [(0, 200 :: nat)], stats = 0\<rparr>"
  let ?new = "Segment_new ''segment.dat'' 0 \<lparr>schema_columns = [], is_in_memory = False\<rparr>
      :: (nat, unit) Segment"
  have id: "seg_segment_id simple_segment = 0" and mem: "mem_consumed simple_segment = 2"
    and path: "seg_path simple_segment = ''segment.dat''"
    by (simp_all add: simple_segment_def)
  have pointee: "?store (stats ?hit) = Some ?st" "?store (stats ?miss) = Some ?st"
    by simp_all
  have miss: "spec_zone_map_mismatch simple_segment ?miss"
    by (simp add: simple_segment_mismatch)
  have hit: "\<not> spec_zone_map_mismatch simple_segment ?hit"
    by (simp add: simple_segment_mismatch)
  have op1: "open_file (simple_env []) (seg_path simple_segment) = Inr (file_reader_of [])"
    by (simp add: path open_file_simple_env)
  have rd1: "read_and_decompress_page (simple_env []) (file_reader_of [])
      (short_key_index_page (seg_footer simple_segment)) = Inr ([], ())"
    by (simp add: simple_env_def)
  have ps1: "ShortKeyIndexDecoder_parse (simple_env []) [] () = Inr ()"
    by (simp add: simple_env_def)
  have op2: "open_file simple_env_page_unreadable (seg_path simple_segment)
      = Inr (file_reader_of [])"
    by (simp add: path simple_env_page_unreadable_def simple_env_def)
  have rd2: "read_and_decompress_page simple_env_page_unreadable (file_reader_of [])
      (short_key_index_page (seg_footer simple_segment)) = Inl IOError"
    by (simp add: simple_env_page_unreadable_def)
  have closed: "\<not> is_open ?new"
    by (simp add: Segment_new_def)
  have a: "new_iterator (simple_env []) simple_segment ?sch ?miss ?store
      = Some (OK, Some (EmptySegmentIterator ?sch),
             [0 \<mapsto> \<lparr>total_segment_number = 1, filtered_segment_number = 1\<rparr>],
             simple_segment)"
    using new_iterator_prunes_or_loads [OF refl refl refl,
        where env = "simple_env []" and seg = simple_segment and oseg = simple_segment
          and read_options = ?miss and store = ?store and st = ?st and schema = ?sch]
      simple_segment_opened_as [of "simple_env []"] simple_segment_in_range [of 200 0]
      pointee(2) miss
    by simp
  have b: "new_iterator (simple_env []) simple_segment ?sch ?hit ?store
      = Some (OK, Some (SegmentIterator 0 ?sch ?hit),
             [0 \<mapsto> \<lparr>total_segment_number = 1, filtered_segment_number = 0\<rparr>],
             simple_segment\<lparr>mem_consumed := 2,
                            sk_index_decoder := Some (DecoderParsed ()),
                            load_index_once := Some OK\<rparr>)"
    using new_iterator_prunes_or_loads [OF refl refl refl,
        where env = "simple_env []" and seg = simple_segment and oseg = simple_segment
          and read_options = ?hit and store = ?store and st = ?st and schema = ?sch]
      simple_segment_opened_as [of "simple_env []"] simple_segment_in_range [of 50 0]
      pointee(1) hit simple_segment_not_loaded op1 rd1 ps1
    by (simp add: id mem)
  have c: "new_iterator simple_env_page_unreadable simple_segment ?sch ?hit ?store
      = Some (Inl IOError, None,
             [0 \<mapsto> \<lparr>total_segment_number = 1, filtered_segment_number = 0\<rparr>],
             simple_segment\<lparr>load_index_once := Some (Inl IOError)\<rparr>)"
    using new_iterator_prunes_or_loads [OF refl refl refl,
        where env = simple_env_page_unreadable and seg = simple_segment
          and oseg = simple_segment
          and read_options = ?hit and store = ?store and st = ?st and schema = ?sch]
      simple_segment_opened_as [of simple_env_page_unreadable]
      simple_segment_in_range [of 50 0]
      pointee(1) hit simple_segment_not_loaded op2 rd2
    by simp
  have d: "new_iterator (simple_env [0, 0, 0, 0, 0x44, 0x30, 0x52, 0x31]) ?new ?sch ?hit ?store
      = Some (Inl Corruption, None, ?store, ?new)"
    using new_iterator_prunes_or_loads [OF refl refl refl,
        where env = "simple_env [0, 0, 0, 0, 0x44, 0x30, 0x52, 0x31]" and seg = ?new
          and oseg = ?new
          and read_options = ?hit and store = ?store and st = ?st and schema = ?sch]
      closed open_internal_truncated
    by blast
  from a b c d show ?thesis by simp
qed

end
